theory Spec2Isabelle
  imports Complex_Main
begin

section \<open>JavaScript numbers\<close>

text \<open>
  The detector computes with JavaScript numbers. They are modelled as the reals extended
  with the two infinities and NaN.  The operators \<open>+\<close>, \<open>-\<close>, \<open>*\<close> and \<open>/\<close> of
  this section give the exact real result on finite operands; the extractors, the handlers
  and the analysis cycle are written with them, so rounding and overflow of doubles are
  left out there.  The tier is written with the rounding operators of the next section.
  The special values follow the IEEE rules that the code relies on (\<open>0/0 = NaN\<close>, every
  operation on NaN gives NaN, every comparison with NaN is false).  A zero divisor is taken
  as \<open>+0\<close>: the only divisors of the code that can be zero are array lengths.
\<close>

datatype jsnum = Fin real | PInf | NInf | NaN

fun isNaN :: "jsnum \<Rightarrow> bool" where
  "isNaN NaN = True"
| "isNaN _ = False"

fun jplus :: "jsnum \<Rightarrow> jsnum \<Rightarrow> jsnum" where
  "jplus (Fin a) (Fin b) = Fin (a + b)"
| "jplus NaN _ = NaN"
| "jplus _ NaN = NaN"
| "jplus PInf NInf = NaN"
| "jplus NInf PInf = NaN"
| "jplus PInf _ = PInf"
| "jplus _ PInf = PInf"
| "jplus NInf _ = NInf"
| "jplus _ NInf = NInf"

fun juminus :: "jsnum \<Rightarrow> jsnum" where
  "juminus (Fin a) = Fin (- a)"
| "juminus PInf = NInf"
| "juminus NInf = PInf"
| "juminus NaN = NaN"

fun jtimes :: "jsnum \<Rightarrow> jsnum \<Rightarrow> jsnum" where
  "jtimes (Fin a) (Fin b) = Fin (a * b)"
| "jtimes NaN _ = NaN"
| "jtimes _ NaN = NaN"
| "jtimes (Fin a) PInf = (if 0 < a then PInf else if a < 0 then NInf else NaN)"
| "jtimes (Fin a) NInf = (if 0 < a then NInf else if a < 0 then PInf else NaN)"
| "jtimes PInf (Fin b) = (if 0 < b then PInf else if b < 0 then NInf else NaN)"
| "jtimes NInf (Fin b) = (if 0 < b then NInf else if b < 0 then PInf else NaN)"
| "jtimes PInf PInf = PInf"
| "jtimes PInf NInf = NInf"
| "jtimes NInf PInf = NInf"
| "jtimes NInf NInf = PInf"

fun jdivide :: "jsnum \<Rightarrow> jsnum \<Rightarrow> jsnum" where
  "jdivide (Fin a) (Fin b) =
     (if b \<noteq> 0 then Fin (a / b)
      else if 0 < a then PInf else if a < 0 then NInf else NaN)"
| "jdivide NaN _ = NaN"
| "jdivide _ NaN = NaN"
| "jdivide (Fin a) PInf = Fin 0"
| "jdivide (Fin a) NInf = Fin 0"
| "jdivide PInf (Fin b) = (if 0 \<le> b then PInf else NInf)"
| "jdivide NInf (Fin b) = (if 0 \<le> b then NInf else PInf)"
| "jdivide _ _ = NaN"

fun jless :: "jsnum \<Rightarrow> jsnum \<Rightarrow> bool" where
  "jless (Fin a) (Fin b) = (a < b)"
| "jless NaN _ = False"
| "jless _ NaN = False"
| "jless _ NInf = False"
| "jless PInf _ = False"
| "jless _ _ = True"

fun jless_eq :: "jsnum \<Rightarrow> jsnum \<Rightarrow> bool" where
  "jless_eq (Fin a) (Fin b) = (a \<le> b)"
| "jless_eq NaN _ = False"
| "jless_eq _ NaN = False"
| "jless_eq NInf _ = True"
| "jless_eq _ PInf = True"
| "jless_eq _ _ = False"

instantiation jsnum :: "{plus, minus, uminus, times, inverse, ord}"
begin

definition plus_jsnum :: "jsnum \<Rightarrow> jsnum \<Rightarrow> jsnum" where
  "plus_jsnum a b = jplus a b"

definition uminus_jsnum :: "jsnum \<Rightarrow> jsnum" where
  "uminus_jsnum a = juminus a"

definition minus_jsnum :: "jsnum \<Rightarrow> jsnum \<Rightarrow> jsnum" where
  "minus_jsnum a b = jplus a (juminus b)"

definition times_jsnum :: "jsnum \<Rightarrow> jsnum \<Rightarrow> jsnum" where
  "times_jsnum a b = jtimes a b"

definition divide_jsnum :: "jsnum \<Rightarrow> jsnum \<Rightarrow> jsnum" where
  "divide_jsnum a b = jdivide a b"

definition inverse_jsnum :: "jsnum \<Rightarrow> jsnum" where
  "inverse_jsnum a = jdivide (Fin 1) a"

definition less_jsnum :: "jsnum \<Rightarrow> jsnum \<Rightarrow> bool" where
  "less_jsnum a b = jless a b"

definition less_eq_jsnum :: "jsnum \<Rightarrow> jsnum \<Rightarrow> bool" where
  "less_eq_jsnum a b = jless_eq a b"

instance ..

end

text \<open>\<open>Math.min\<close>, \<open>Math.max\<close>, \<open>Math.abs\<close>, \<open>Math.sqrt\<close> and \<open>Math.pow(x, 2)\<close>.\<close>

fun Math_min :: "jsnum \<Rightarrow> jsnum \<Rightarrow> jsnum" where
  "Math_min NaN _ = NaN"
| "Math_min _ NaN = NaN"
| "Math_min a b = (if jless_eq a b then a else b)"

fun Math_max :: "jsnum \<Rightarrow> jsnum \<Rightarrow> jsnum" where
  "Math_max NaN _ = NaN"
| "Math_max _ NaN = NaN"
| "Math_max a b = (if jless_eq a b then b else a)"

fun Math_abs :: "jsnum \<Rightarrow> jsnum" where
  "Math_abs (Fin a) = Fin \<bar>a\<bar>"
| "Math_abs PInf = PInf"
| "Math_abs NInf = PInf"
| "Math_abs NaN = NaN"

fun Math_sqrt :: "jsnum \<Rightarrow> jsnum" where
  "Math_sqrt (Fin a) = (if a < 0 then NaN else Fin (sqrt a))"
| "Math_sqrt PInf = PInf"
| "Math_sqrt NInf = NaN"
| "Math_sqrt NaN = NaN"

definition Math_pow2 :: "jsnum \<Rightarrow> jsnum" where
  "Math_pow2 a = a * a"


section \<open>IEEE doubles\<close>

text \<open>
  The tier compares a sum of products with two thresholds, and near them rounding decides
  the result; there the arithmetic of doubles is followed exactly.
  \<open>to_double\<close> rounds a real to the nearest binary64 value, ties to the even mantissa:
  the spacing of the doubles around \<open>x\<close> is \<open>2\<close> to the power
  \<open>max(floor(log2 |x|), -1022) - 52\<close>, and a result of magnitude \<open>2^1024\<close> or more is
  an infinity.  \<open>dbl_add\<close>, \<open>dbl_mul\<close> and \<open>dbl_div\<close> are the operators \<open>+\<close>,
  \<open>*\<close> and \<open>/\<close> on doubles (the exact result, rounded), and \<open>dbl_lit\<close> is the value
  of a decimal literal.
\<close>

definition round_half_even :: "real \<Rightarrow> int" where
  "round_half_even y =
     (let f = \<lfloor>y\<rfloor>
      in if y - of_int f < 1 / 2 then f
         else if 1 / 2 < y - of_int f then f + 1
         else if even f then f else f + 1)"








section \<open>Configuration\<close>

text \<open>The constants of \<open>CONFIG\<close>.\<close>

definition MOUSE_THROTTLE_MS :: real where "MOUSE_THROTTLE_MS = 50"
definition KEYBOARD_THROTTLE_MS :: real where "KEYBOARD_THROTTLE_MS = 25"
definition MAX_SAMPLES :: nat where "MAX_SAMPLES = 200"
definition MIN_MOUSE_MOVEMENTS :: nat where "MIN_MOUSE_MOVEMENTS = 2"
definition MIN_KEYPRESS_SAMPLES :: nat where "MIN_KEYPRESS_SAMPLES = 1"
definition W_MOUSE_ENTROPY :: real where "W_MOUSE_ENTROPY = 0.45"
definition W_TYPING_PATTERN :: real where "W_TYPING_PATTERN = 0.15"
definition W_NAVIGATION_PATTERN :: real where "W_NAVIGATION_PATTERN = 0.25"
definition W_FORM_FILLING :: real where "W_FORM_FILLING = 0.15"
definition BOT_THRESHOLD :: real where "BOT_THRESHOLD = 0.55"

text \<open>
  \<open>CONFIG.MAX_SAMPLES / 4\<close>, the capacity of the click, scroll and form buffers; the
  quotient is the integer 50.
\<close>

definition QUARTER_SAMPLES :: nat where "QUARTER_SAMPLES = MAX_SAMPLES div 4"

definition reportEndpoint :: string where "reportEndpoint = ''/bot/behaviorMetrics''"

section \<open>Samples, the browser and the detector\<close>

text \<open>
  Coordinates and timestamps come from DOM events and \<open>performance.now()\<close>, which only
  deliver finite numbers, so the fields of a sample are reals.
\<close>

record mouse_sample =
  m_x :: real
  m_y :: real
  m_time :: real

record key_sample =
  k_time :: real
  k_shift :: bool
  k_ctrl :: bool
  k_alt :: bool
  k_meta :: bool

record click_sample =
  c_x :: real
  c_y :: real
  c_target :: string
  c_time :: real

record scroll_sample =
  s_scrollY :: real
  s_time :: real

record form_sample =
  f_field :: string
  f_time :: real

text \<open>The result of \<open>getBoundingClientRect()\<close>.\<close>

record rect =
  r_left :: real
  r_top :: real
  r_width :: real
  r_height :: real

datatype exn = TypeError

text \<open>
  What the detector reads from its host at the time of a call: the clock, the document
  (\<open>document.elementFromPoint\<close> followed by \<open>getBoundingClientRect\<close>, which may
  throw, find no element, or give a rectangle), the navigator and the window.
  \<open>win_cdp\<close> stands for \<open>window.CDP || window.__playwright || window.__puppeteer\<close>
  and \<open>win_pwMeta\<close> for \<open>window.__pwEvents || window.__pw_inspector__\<close>, read as
  truth values.
\<close>

record browser =
  now :: real
  elementFromPoint :: "real \<Rightarrow> real \<Rightarrow> exn + rect option"
  userAgent :: string
  webdriver :: bool
  win_cdp :: bool
  win_pwMeta :: bool
  outerHeight :: real
  innerHeight :: real
  outerWidth :: real
  innerWidth :: real
  scrollY :: real

text \<open>
  The body of one report request (\<open>POST /bot/behaviorMetrics\<close>), without the timestamp.
\<close>

record report =
  rp_confidenceScore :: jsnum
  rp_mouseEntropy :: jsnum
  rp_typingPattern :: jsnum
  rp_navigationPattern :: jsnum
  rp_formFilling :: jsnum
  rp_mouseMovements :: nat
  rp_keyPresses :: nat
  rp_clicks :: nat
  rp_scrolls :: nat
  rp_formInteractions :: nat
  rp_userAgent :: string

datatype event_kind = K_mousemove | K_keydown | K_click | K_scroll | K_input

text \<open>
  The fields of \<open>BotDetector\<close>, and two parts of its surroundings that its methods
  change: \<open>listeners\<close>, the event types for which the document holds a listener of this
  detector, and \<open>reports\<close>, the report requests sent so far, oldest first.
  \<open>botEndpointHits\<close> is kept in insertion order, one entry per key.
\<close>

record detector =
  mouseMovements :: "mouse_sample list"
  keyPressTimings :: "key_sample list"
  clickEvents :: "click_sample list"
  scrollEvents :: "scroll_sample list"
  formInteractions :: "form_sample list"
  lastMouseTime :: real
  lastKeyTime :: real
  confidenceScore :: jsnum
  isAnalyzing :: bool
  analysisTimerId :: "nat option"
  botEndpointHits :: "(string \<times> nat) list"
  listeners :: "event_kind set"
  reports :: "report list"

section \<open>Strings\<close>

fun startsWith :: "string \<Rightarrow> string \<Rightarrow> bool" where
  "startsWith _ [] = True"
| "startsWith [] (p # ps) = False"
| "startsWith (c # cs) (p # ps) = (c = p \<and> startsWith cs ps)"

fun str_includes :: "string \<Rightarrow> string \<Rightarrow> bool" where
  "str_includes [] p = startsWith [] p"
| "str_includes (c # cs) p = (startsWith (c # cs) p \<or> str_includes cs p)"

text \<open>\<open>toLowerCase\<close> on the ASCII letters.\<close>

definition lower_char :: "char \<Rightarrow> char" where
  "lower_char c =
     (let n = (of_char c :: nat) in if 65 \<le> n \<and> n \<le> 90 then char_of (n + 32) else c)"

definition toLowerCase :: "string \<Rightarrow> string" where
  "toLowerCase s = map lower_char s"

text \<open>\<open>url.split('?')[0]\<close>.\<close>

definition before_query :: "string \<Rightarrow> string" where
  "before_query url = takeWhile (\<lambda>c. c \<noteq> CHR ''?'') url"

section \<open>Endpoint usage\<close>

text \<open>
  The first argument of a \<open>fetch\<close> call is a string or something else (a \<open>Request\<close>
  or \<open>URL\<close> object).
\<close>

datatype fetch_arg = Str string | NotString

text \<open>\<open>hits[endpoint] || 0\<close>.\<close>

definition hit_count :: "(string \<times> nat) list \<Rightarrow> string \<Rightarrow> nat" where
  "hit_count hits k = (case map_of hits k of None \<Rightarrow> 0 | Some n \<Rightarrow> n)"

text \<open>\<open>hits[endpoint] = (hits[endpoint] || 0) + 1\<close>.\<close>

fun bump_hit :: "string \<Rightarrow> (string \<times> nat) list \<Rightarrow> (string \<times> nat) list" where
  "bump_hit k [] = [(k, 1)]"
| "bump_hit k ((k', n) # hits) =
     (if k' = k then (k', n + 1) # hits else (k', n) # bump_hit k hits)"

text \<open>The wrapper that \<open>hookIntoFetch\<close> installs as \<open>window.fetch\<close>, before it forwards the call.\<close>

definition fetch_hook :: "fetch_arg \<Rightarrow> detector \<Rightarrow> detector" where
  "fetch_hook arg s =
     (case arg of
        Str url \<Rightarrow>
          if startsWith url ''/bot/'' \<and> \<not> str_includes url ''behaviorMetrics''
          then s\<lparr>botEndpointHits := bump_hit (before_query url) (botEndpointHits s)\<rparr>
          else s
      | NotString \<Rightarrow> s)"

section \<open>Signal extractors\<close>

text \<open>The differences of consecutive timestamps: \<open>xs[i].time - xs[i-1].time\<close> for \<open>i = 1, ...\<close>.\<close>

fun intervals :: "real list \<Rightarrow> jsnum list" where
  "intervals (a # b # ts) = (Fin b - Fin a) # intervals (b # ts)"
| "intervals _ = []"

text \<open>The loop of \<open>calculateMouseEntropy\<close> over consecutive triples, with its three variables.\<close>

fun mouse_loop ::
  "mouse_sample list \<Rightarrow> nat \<times> jsnum option \<times> jsnum \<Rightarrow> nat \<times> jsnum option \<times> jsnum" where
  "mouse_loop (p1 # p2 # p3 # ps) (straightLineSegments, lastSpeed, speedVariations) =
     (let dxA = Fin (m_x p2) - Fin (m_x p1);
          dyA = Fin (m_y p2) - Fin (m_y p1);
          dxB = Fin (m_x p3) - Fin (m_x p2);
          dyB = Fin (m_y p3) - Fin (m_y p2);
          crossProduct = Math_abs (dxA * dyB - dyA * dxB);
          straightLineSegments' =
            (if crossProduct < Fin 10 then Suc straightLineSegments else straightLineSegments);
          distance = Math_sqrt (dxB * dxB + dyB * dyB);
          timeDiff = Fin (m_time p3) - Fin (m_time p2);
          speed = (if Fin 0 < timeDiff then distance / timeDiff else Fin 0);
          speedVariations' =
            (case lastSpeed of
               None \<Rightarrow> speedVariations
             | Some l \<Rightarrow> speedVariations + Math_abs (speed - l))
      in mouse_loop (p2 # p3 # ps) (straightLineSegments', Some speed, speedVariations'))"
| "mouse_loop _ acc = acc"

definition calculateMouseEntropy :: "detector \<Rightarrow> jsnum" where
  "calculateMouseEntropy s =
     (let n = length (mouseMovements s) in
      if n < MIN_MOUSE_MOVEMENTS then Fin 0.5
      else
        (case mouse_loop (mouseMovements s) (0, None, Fin 0) of
           (straightLineSegments, lastSpeed, speedVariations) \<Rightarrow>
             (let straightnessRatio =
                    (if 3 < n then Fin (real straightLineSegments) / Fin (real n - 2) else Fin 0);
                  speedVariabilityScore = speedVariations / Fin (real n - 2)
              in straightnessRatio * Fin 0.6
                 + (Fin 1 - Math_min (Fin 1) (speedVariabilityScore * Fin 10)) * Fin 0.4)))"

definition calculateTypingPatterns :: "detector \<Rightarrow> jsnum" where
  "calculateTypingPatterns s =
     (if length (keyPressTimings s) < MIN_KEYPRESS_SAMPLES then Fin 0.5
      else
        (let ivs = intervals (map k_time (keyPressTimings s));
             sum = foldl (\<lambda>acc i. acc + i) (Fin 0) ivs;
             squaredSum = foldl (\<lambda>acc i. acc + i * i) (Fin 0) ivs;
             mean = sum / Fin (real (length ivs));
             variance = squaredSum / Fin (real (length ivs)) - mean * mean;
             normalizedVariance = Math_min (Fin 1) (variance / Fin 10000)
         in Fin 1 - normalizedVariance))"

text \<open>The loop over the clicks in \<open>calculateNavigationPatterns\<close>, counting \<open>centerClicks\<close>.\<close>

fun count_centerClicks :: "browser \<Rightarrow> click_sample list \<Rightarrow> nat \<Rightarrow> exn + nat" where
  "count_centerClicks b [] centerClicks = Inr centerClicks"
| "count_centerClicks b (click # clicks) centerClicks =
     (case elementFromPoint b (c_x click) (c_y click) of
        Inl e \<Rightarrow> Inl e
      | Inr None \<Rightarrow> count_centerClicks b clicks centerClicks
      | Inr (Some r) \<Rightarrow>
          (let centerX = Fin (r_left r) + Fin (r_width r) / Fin 2;
               centerY = Fin (r_top r) + Fin (r_height r) / Fin 2;
               distanceToCenter =
                 Math_sqrt (Math_pow2 (Fin (c_x click) - centerX)
                            + Math_pow2 (Fin (c_y click) - centerY))
           in count_centerClicks b clicks
                (if distanceToCenter < Fin 5 then Suc centerClicks else centerClicks)))"

text \<open>The scroll block of \<open>calculateNavigationPatterns\<close>: \<open>scrollRegularity\<close>.\<close>

definition scrollRegularity :: "detector \<Rightarrow> jsnum" where
  "scrollRegularity s =
     (let scrollIntervals = intervals (map s_time (scrollEvents s));
          avg = foldl (\<lambda>sum val. sum + val) (Fin 0) scrollIntervals
                / Fin (real (length scrollIntervals));
          variance = foldl (\<lambda>sum val. sum + Math_pow2 (val - avg)) (Fin 0) scrollIntervals
                     / Fin (real (length scrollIntervals));
          stdDev = Math_sqrt variance
      in Math_max (Fin 0) (Math_min (Fin 1) (Fin 1 - stdDev / Fin 1000)))"

definition calculateNavigationPatterns :: "browser \<Rightarrow> detector \<Rightarrow> exn + jsnum" where
  "calculateNavigationPatterns b s =
     (if length (clickEvents s) < 2 \<and> length (scrollEvents s) < 2 then Inr (Fin 0.5)
      else
        (let score = Fin 0.5;
             score = (if 3 \<le> length (scrollEvents s)
                      then (score + scrollRegularity s) / Fin 2 else score)
         in if 2 \<le> length (clickEvents s)
            then (case count_centerClicks b (clickEvents s) 0 of
                    Inl e \<Rightarrow> Inl e
                  | Inr centerClicks \<Rightarrow>
                      (let centerClickRatio =
                             Fin (real centerClicks) / Fin (real (length (clickEvents s)))
                       in Inr ((score + centerClickRatio) / Fin 2)))
            else Inr score))"

definition calculateFormFillingPatterns :: "detector \<Rightarrow> jsnum" where
  "calculateFormFillingPatterns s =
     (if length (formInteractions s) < 2 then Fin 0.5
      else
        (let ivs = intervals (map f_time (formInteractions s));
             avgInterval = foldl (\<lambda>sum val. sum + val) (Fin 0) ivs / Fin (real (length ivs))
         in if avgInterval < Fin 250 then Fin 0.95
            else if avgInterval < Fin 500 then Fin 0.8
            else if avgInterval < Fin 800 then Fin 0.6
            else if avgInterval < Fin 1500 then Fin 0.4
            else Fin 0.2))"

section \<open>Reporting\<close>

text \<open>
  \<open>reportToServer\<close>: the snapshot is built first (an exception there is caught and
  nothing is sent); the request then goes through the hooked \<open>window.fetch\<close>.  The
  response is never awaited by a caller.
\<close>

definition reportToServer :: "browser \<Rightarrow> detector \<Rightarrow> detector" where
  "reportToServer b s =
     (case calculateNavigationPatterns b s of
        Inl e \<Rightarrow> s
      | Inr navigationPattern \<Rightarrow>
          (let reportData =
                 \<lparr>rp_confidenceScore = confidenceScore s,
                  rp_mouseEntropy = calculateMouseEntropy s,
                  rp_typingPattern = calculateTypingPatterns s,
                  rp_navigationPattern = navigationPattern,
                  rp_formFilling = calculateFormFillingPatterns s,
                  rp_mouseMovements = length (mouseMovements s),
                  rp_keyPresses = length (keyPressTimings s),
                  rp_clicks = length (clickEvents s),
                  rp_scrolls = length (scrollEvents s),
                  rp_formInteractions = length (formInteractions s),
                  rp_userAgent = userAgent b\<rparr>;
               s' = fetch_hook (Str reportEndpoint) s
           in s'\<lparr>reports := reports s' @ [reportData]\<rparr>))"

section \<open>Event handlers\<close>

fun isTooPerfectLine :: "mouse_sample list \<Rightarrow> bool" where
  "isTooPerfectLine (p1 # p2 # p3 # ps) =
     (let crossProduct =
            Math_abs ((Fin (m_y p2) - Fin (m_y p1)) * (Fin (m_x p3) - Fin (m_x p2))
                      - (Fin (m_x p2) - Fin (m_x p1)) * (Fin (m_y p3) - Fin (m_y p2)));
          interval1 = Fin (m_time p2) - Fin (m_time p1);
          interval2 = Fin (m_time p3) - Fin (m_time p2);
          intervalDiff = Math_abs (interval1 - interval2)
      in crossProduct < Fin 10 \<and> intervalDiff < Fin 10)"
| "isTooPerfectLine _ = False"

definition handleMouseMove :: "browser \<Rightarrow> real \<Rightarrow> real \<Rightarrow> detector \<Rightarrow> detector" where
  "handleMouseMove b clientX clientY s =
     (if Fin MOUSE_THROTTLE_MS \<le> Fin (now b) - Fin (lastMouseTime s)
      then
        (let s1 = s\<lparr>lastMouseTime := now b,
                    mouseMovements :=
                      mouseMovements s @ [\<lparr>m_x = clientX, m_y = clientY, m_time = now b\<rparr>]\<rparr>;
             s2 = (if MAX_SAMPLES < length (mouseMovements s1)
                   then s1\<lparr>mouseMovements := tl (mouseMovements s1)\<rparr> else s1)
         in if 3 \<le> length (mouseMovements s2)
            then
              (let last3 = drop (length (mouseMovements s2) - 3) (mouseMovements s2)
               in if isTooPerfectLine last3
                  then s2\<lparr>confidenceScore := Math_min (Fin 0.95) (confidenceScore s2 + Fin 0.1)\<rparr>
                  else s2)
            else s2)
      else s)"

text \<open>
  \<open>detectMechanicalTyping\<close>: the loop index runs from 1 below \<open>Math.min(5, length)\<close>,
  over the front of the buffer.
\<close>

definition detectMechanicalTyping :: "detector \<Rightarrow> detector" where
  "detectMechanicalTyping s =
     (if length (keyPressTimings s) < 3 then s
      else
        (let ivs = intervals (map k_time
                     (take (min 5 (length (keyPressTimings s))) (keyPressTimings s)));
             avg = foldl (\<lambda>sum val. sum + val) (Fin 0) ivs / Fin (real (length ivs));
             variance = foldl (\<lambda>sum val. sum + Math_pow2 (val - avg)) (Fin 0) ivs
                        / Fin (real (length ivs))
         in if variance < Fin 500
            then s\<lparr>confidenceScore := Math_min (Fin 0.95) (confidenceScore s + Fin 0.05)\<rparr>
            else s))"

definition handleKeyDown :: "browser \<Rightarrow> bool \<Rightarrow> bool \<Rightarrow> bool \<Rightarrow> bool \<Rightarrow> detector \<Rightarrow> detector" where
  "handleKeyDown b shiftKey ctrlKey altKey metaKey s =
     (if Fin KEYBOARD_THROTTLE_MS \<le> Fin (now b) - Fin (lastKeyTime s)
      then
        (let s1 = s\<lparr>lastKeyTime := now b,
                    keyPressTimings :=
                      keyPressTimings s @
                        [\<lparr>k_time = now b, k_shift = shiftKey, k_ctrl = ctrlKey,
                          k_alt = altKey, k_meta = metaKey\<rparr>]\<rparr>;
             s2 = (if MAX_SAMPLES < length (keyPressTimings s1)
                   then s1\<lparr>keyPressTimings := tl (keyPressTimings s1)\<rparr> else s1)
         in if 3 \<le> length (keyPressTimings s2) then detectMechanicalTyping s2 else s2)
      else s)"

text \<open>
  \<open>handleClick\<close>: \<open>target_rect\<close> is the bounding rectangle of \<open>event.target\<close> when the
  target is an \<open>HTMLElement\<close>, and \<open>None\<close> otherwise.
\<close>

definition handleClick ::
  "browser \<Rightarrow> real \<Rightarrow> real \<Rightarrow> string \<Rightarrow> rect option \<Rightarrow> detector \<Rightarrow> detector" where
  "handleClick b clientX clientY tagName target_rect s =
     (let s1 = s\<lparr>clickEvents :=
                    clickEvents s @
                      [\<lparr>c_x = clientX, c_y = clientY, c_target = tagName, c_time = now b\<rparr>]\<rparr>;
          s2 = (if QUARTER_SAMPLES < length (clickEvents s1)
                then s1\<lparr>clickEvents := tl (clickEvents s1)\<rparr> else s1)
      in case target_rect of
           None \<Rightarrow> s2
         | Some r \<Rightarrow>
             (let centerX = Fin (r_left r) + Fin (r_width r) / Fin 2;
                  centerY = Fin (r_top r) + Fin (r_height r) / Fin 2;
                  distanceToCenter =
                    Math_sqrt (Math_pow2 (Fin clientX - centerX) + Math_pow2 (Fin clientY - centerY))
              in if distanceToCenter < Fin 5 \<and> Fin 10 < Fin (r_width r) \<and> Fin 10 < Fin (r_height r)
                 then reportToServer b
                        (s2\<lparr>confidenceScore := Math_min (Fin 0.95) (confidenceScore s2 + Fin 0.15)\<rparr>)
                 else s2))"

text \<open>\<open>calculateVariance\<close>; its first \<open>reduce\<close> has no initial value.\<close>

definition calculateVariance :: "jsnum list \<Rightarrow> jsnum" where
  "calculateVariance array =
     (case array of
        [] \<Rightarrow> Fin 0
      | a # as \<Rightarrow>
          (let mean = foldl (\<lambda>a b. a + b) a as / Fin (real (length array))
           in foldl (\<lambda>sq n. sq + Math_pow2 (n - mean)) (Fin 0) array
              / Fin (real (length array))))"

text \<open>\<open>Math.abs(xs[i].scrollY - xs[i-1].scrollY)\<close> for \<open>i = 1, ...\<close>.\<close>

fun scroll_distances :: "real list \<Rightarrow> jsnum list" where
  "scroll_distances (a # b # ys) = Math_abs (Fin b - Fin a) # scroll_distances (b # ys)"
| "scroll_distances _ = []"

definition detectMechanicalScrolling :: "detector \<Rightarrow> detector" where
  "detectMechanicalScrolling s =
     (if length (scrollEvents s) < 3 then s
      else
        (let front = take (min 4 (length (scrollEvents s))) (scrollEvents s);
             timeVariance = calculateVariance (intervals (map s_time front));
             distanceVariance = calculateVariance (scroll_distances (map s_scrollY front))
         in if timeVariance < Fin 100 \<and> distanceVariance < Fin 100
            then s\<lparr>confidenceScore := Math_min (Fin 0.95) (confidenceScore s + Fin 0.1)\<rparr>
            else s))"

definition handleScroll :: "browser \<Rightarrow> detector \<Rightarrow> detector" where
  "handleScroll b s =
     (let s1 = s\<lparr>scrollEvents :=
                    scrollEvents s @ [\<lparr>s_scrollY = scrollY b, s_time = now b\<rparr>]\<rparr>;
          s2 = (if QUARTER_SAMPLES < length (scrollEvents s1)
                then s1\<lparr>scrollEvents := tl (scrollEvents s1)\<rparr> else s1)
      in if 3 \<le> length (scrollEvents s2) then detectMechanicalScrolling s2 else s2)"

text \<open>
  \<open>handleFormInteraction\<close>: \<open>name\<close> and \<open>ident\<close> are the target's \<open>name\<close> and \<open>id\<close>,
  the empty string being the falsy value of \<open>name || id || tagName\<close>.
\<close>

definition handleFormInteraction ::
  "browser \<Rightarrow> string \<Rightarrow> string \<Rightarrow> string \<Rightarrow> detector \<Rightarrow> detector" where
  "handleFormInteraction b tagName name ident s =
     (if tagName = ''INPUT'' \<or> tagName = ''SELECT'' \<or> tagName = ''TEXTAREA''
      then
        (let field = (if name \<noteq> [] then name else if ident \<noteq> [] then ident else tagName);
             s1 = s\<lparr>formInteractions :=
                       formInteractions s @ [\<lparr>f_field = field, f_time = now b\<rparr>]\<rparr>;
             s2 = (if QUARTER_SAMPLES < length (formInteractions s1)
                   then s1\<lparr>formInteractions := tl (formInteractions s1)\<rparr> else s1)
         in if 2 \<le> length (formInteractions s2)
            then
              (let lastIndex = length (formInteractions s2) - 1;
                   timeBetweenFields =
                     Fin (f_time (formInteractions s2 ! lastIndex))
                     - Fin (f_time (formInteractions s2 ! (lastIndex - 1)))
               in if timeBetweenFields < Fin 500
                  then reportToServer b
                         (s2\<lparr>confidenceScore := Math_min (Fin 0.95) (confidenceScore s2 + Fin 0.2)\<rparr>)
                  else s2)
            else s2)
      else s)"

section \<open>The periodic analysis\<close>

text \<open>
  The \<open>try\<close> block of \<open>runAnalysis\<close>, entered with \<open>isAnalyzing\<close> set: \<open>Inl\<close> is an
  exception thrown out of the block.  Nothing is assigned before the only call that can
  throw, so the handler sees the state the block was entered with.
\<close>

definition runAnalysis_try :: "browser \<Rightarrow> detector \<Rightarrow> exn + detector" where
  "runAnalysis_try b s =
     (if length (mouseMovements s) < MIN_MOUSE_MOVEMENTS then Inr (s\<lparr>isAnalyzing := False\<rparr>)
      else
        (let mouseEntropyScore = calculateMouseEntropy s;
             typingPatternScore = calculateTypingPatterns s
         in case calculateNavigationPatterns b s of
              Inl e \<Rightarrow> Inl e
            | Inr navigationScore \<Rightarrow>
                (let formFillingScore = calculateFormFillingPatterns s;
                     newScore =
                       mouseEntropyScore * Fin W_MOUSE_ENTROPY
                       + typingPatternScore * Fin W_TYPING_PATTERN
                       + navigationScore * Fin W_NAVIGATION_PATTERN
                       + formFillingScore * Fin W_FORM_FILLING;
                     validNewScore = (if isNaN newScore then Fin 0.5 else newScore);
                     s1 = s\<lparr>confidenceScore :=
                               confidenceScore s * Fin 0.7 + validNewScore * Fin 0.3\<rparr>;
                     s2 = (if isNaN (confidenceScore s1)
                           then s1\<lparr>confidenceScore := Fin 0.5\<rparr> else s1)
                 in Inr (reportToServer b s2))))"

text \<open>\<open>runAnalysis\<close> with its \<open>catch\<close> and \<open>finally\<close>.\<close>

definition runAnalysis :: "browser \<Rightarrow> detector \<Rightarrow> detector" where
  "runAnalysis b s =
     (if isAnalyzing s then s
      else
        (let s1 = s\<lparr>isAnalyzing := True\<rparr>
         in case runAnalysis_try b s1 of
              Inr s2 \<Rightarrow> s2\<lparr>isAnalyzing := False\<rparr>
            | Inl e \<Rightarrow> s1\<lparr>confidenceScore := Fin 0.5, isAnalyzing := False\<rparr>))"

text \<open>\<open>scheduleAnalysis\<close> stores the handle \<open>h\<close> that the runtime returns.\<close>

definition scheduleAnalysis :: "nat \<Rightarrow> detector \<Rightarrow> detector" where
  "scheduleAnalysis h s = s\<lparr>analysisTimerId := Some h\<rparr>"

section \<open>Environment probes and life cycle\<close>

text \<open>The callback of the \<open>HEAD\<close> request made by \<open>checkBotHeaders\<close>.\<close>

definition checkBotHeaders_then :: "browser \<Rightarrow> detector \<Rightarrow> detector" where
  "checkBotHeaders_then b s =
     (let ua = toLowerCase (userAgent b)
      in if str_includes ua ''bot'' \<or> str_includes ua ''crawler'' \<or> str_includes ua ''spider''
            \<or> str_includes ua ''headless'' \<or> str_includes ua ''automation''
            \<or> str_includes ua ''playwright'' \<or> str_includes ua ''selenium''
            \<or> str_includes ua ''cypress''
         then reportToServer b (s\<lparr>confidenceScore := Fin 0.95\<rparr>)
         else s)"

text \<open>The synchronous part of \<open>detectAutomationLibraries\<close>.\<close>

definition detectAutomationLibraries :: "browser \<Rightarrow> detector \<Rightarrow> detector" where
  "detectAutomationLibraries b s =
     (if webdriver b then s\<lparr>confidenceScore := Fin 0.95\<rparr> else s)"

text \<open>The closure \<open>checkForAutomation\<close> that \<open>detectAutomationLibraries\<close> runs after a second.\<close>

definition checkForAutomation :: "browser \<Rightarrow> detector \<Rightarrow> detector" where
  "checkForAutomation b s =
     (let s1 = (if win_cdp b \<or> win_pwMeta b then s\<lparr>confidenceScore := Fin 0.95\<rparr> else s)
      in if outerHeight b = innerHeight b \<and> outerWidth b = innerWidth b
         then s1\<lparr>confidenceScore := confidenceScore s1 + Fin 0.1\<rparr>
         else s1)"

definition all_kinds :: "event_kind set" where
  "all_kinds = {K_mousemove, K_keydown, K_click, K_scroll, K_input}"

definition start :: "browser \<Rightarrow> nat \<Rightarrow> detector \<Rightarrow> detector" where
  "start b h s =
     detectAutomationLibraries b
       (scheduleAnalysis h (s\<lparr>listeners := listeners s \<union> all_kinds\<rparr>))"

text \<open>\<open>stop\<close>; a handle is cleared when it is truthy.\<close>

definition stop :: "detector \<Rightarrow> detector" where
  "stop s =
     s\<lparr>listeners := listeners s - all_kinds,
       analysisTimerId :=
         (case analysisTimerId s of
            None \<Rightarrow> None
          | Some h \<Rightarrow> if h \<noteq> 0 then None else Some h),
       mouseMovements := [],
       keyPressTimings := [],
       clickEvents := [],
       scrollEvents := [],
       formInteractions := []\<rparr>"

definition getConfidenceScore :: "detector \<Rightarrow> jsnum" where
  "getConfidenceScore s = (if isNaN (confidenceScore s) then Fin 0.5 else confidenceScore s)"

definition isLikelyBot :: "detector \<Rightarrow> bool" where
  "isLikelyBot s = (Fin BOT_THRESHOLD < confidenceScore s)"

section \<open>The tier\<close>






section \<open>Sessions\<close>

text \<open>The detector as its constructor leaves it.\<close>

definition new_detector :: detector where
  "new_detector =
     \<lparr>mouseMovements = [], keyPressTimings = [], clickEvents = [], scrollEvents = [],
      formInteractions = [], lastMouseTime = 0, lastKeyTime = 0, confidenceScore = Fin 0.5,
      isAnalyzing = False, analysisTimerId = None, botEndpointHits = [], listeners = {},
      reports = []\<rparr>"

text \<open>A raw event as the document dispatches it.\<close>

datatype event =
  MouseMove real real
| KeyDown bool bool bool bool
| Click real real string "rect option"
| Scroll
| Input string string string

fun kind_of :: "event \<Rightarrow> event_kind" where
  "kind_of (MouseMove _ _) = K_mousemove"
| "kind_of (KeyDown _ _ _ _) = K_keydown"
| "kind_of (Click _ _ _ _) = K_click"
| "kind_of Scroll = K_scroll"
| "kind_of (Input _ _ _) = K_input"

fun handle :: "browser \<Rightarrow> event \<Rightarrow> detector \<Rightarrow> detector" where
  "handle b (MouseMove x y) s = handleMouseMove b x y s"
| "handle b (KeyDown sh ct al me) s = handleKeyDown b sh ct al me s"
| "handle b (Click x y tag r) s = handleClick b x y tag r s"
| "handle b Scroll s = handleScroll b s"
| "handle b (Input tag name ident) s = handleFormInteraction b tag name ident s"

text \<open>A raw event reaches its handler only while the listener for its type is attached.\<close>

definition deliver :: "browser \<Rightarrow> event \<Rightarrow> detector \<Rightarrow> detector" where
  "deliver b ev s = (if kind_of ev \<in> listeners s then handle b ev s else s)"

text \<open>
  What can happen to a detector: a call of \<open>start\<close> or \<open>stop\<close>, a raw event, the
  scheduled analysis callback (which re-arms itself), the delayed automation check, the
  response to the header probe, and a call of \<open>window.fetch\<close> by the page.
\<close>

datatype op =
  Call_start browser nat
| Call_stop
| Raw_event browser event
| Analysis_callback browser nat
| Automation_timeout browser
| Header_response browser
| Window_fetch fetch_arg

fun step :: "op \<Rightarrow> detector \<Rightarrow> detector" where
  "step (Call_start b h) s = start b h s"
| "step Call_stop s = stop s"
| "step (Raw_event b ev) s = deliver b ev s"
| "step (Analysis_callback b h) s = scheduleAnalysis h (runAnalysis b s)"
| "step (Automation_timeout b) s = checkForAutomation b s"
| "step (Header_response b) s = checkBotHeaders_then b s"
| "step (Window_fetch arg) s = fetch_hook arg s"

definition run :: "op list \<Rightarrow> detector \<Rightarrow> detector" where
  "run ops s = foldl (\<lambda>s x. step x s) s ops"

section \<open>Reference formulas\<close>

text \<open>
  The quantities the specification names, over the reals: the differences of consecutive
  timestamps, the mean and the population variance of a list, the regularity of scroll
  intervals (the standard deviation normalised against 1000 ms and clamped to the unit
  interval), and the fraction of clicks within 5 pixels of the centre of the element under
  them.  \<open>dom_ok\<close> says that looking up the element under a click does not throw.
\<close>

fun diffs :: "real list \<Rightarrow> real list" where
  "diffs (a # b # ts) = (b - a) # diffs (b # ts)"
| "diffs _ = []"

definition mean :: "real list \<Rightarrow> real" where
  "mean xs = sum_list xs / real (length xs)"

definition pvariance :: "real list \<Rightarrow> real" where
  "pvariance xs = (\<Sum>x\<leftarrow>xs. (x - mean xs)\<^sup>2) / real (length xs)"

definition scroll_regularity :: "real list \<Rightarrow> real" where
  "scroll_regularity ts = max 0 (min 1 (1 - sqrt (pvariance (diffs ts)) / 1000))"

definition near_center :: "browser \<Rightarrow> click_sample \<Rightarrow> bool" where
  "near_center b click =
     (case elementFromPoint b (c_x click) (c_y click) of
        Inr (Some r) \<Rightarrow>
          sqrt ((c_x click - (r_left r + r_width r / 2))\<^sup>2
                + (c_y click - (r_top r + r_height r / 2))\<^sup>2) < 5
      | _ \<Rightarrow> False)"

definition dom_ok :: "browser \<Rightarrow> click_sample \<Rightarrow> bool" where
  "dom_ok b click =
     (case elementFromPoint b (c_x click) (c_y click) of Inl e \<Rightarrow> False | Inr r \<Rightarrow> True)"

definition center_click_ratio :: "browser \<Rightarrow> click_sample list \<Rightarrow> real" where
  "center_click_ratio b clicks =
     real (length (filter (near_center b) clicks)) / real (length clicks)"

text \<open>The speed on the segment between two pointer samples, zero when no time has passed.\<close>

definition segment_speed :: "mouse_sample \<Rightarrow> mouse_sample \<Rightarrow> real" where
  "segment_speed p q =
     (if 0 < m_time q - m_time p
      then sqrt ((m_x q - m_x p) * (m_x q - m_x p) + (m_y q - m_y p) * (m_y q - m_y p))
           / (m_time q - m_time p)
      else 0)"


text \<open>A JavaScript number that is not an infinity.\<close>

fun finite_or_NaN :: "jsnum \<Rightarrow> bool" where
  "finite_or_NaN PInf = False"
| "finite_or_NaN NInf = False"
| "finite_or_NaN _ = True"

text \<open>
  The capacity bound on the five buffers, and the last \<open>cap\<close> elements of a list: what
  a first-in first-out buffer of capacity \<open>cap\<close> holds.
\<close>

definition within_capacity :: "detector \<Rightarrow> bool" where
  "within_capacity s =
     (length (mouseMovements s) \<le> 200 \<and> length (keyPressTimings s) \<le> 200
      \<and> length (clickEvents s) \<le> 50 \<and> length (scrollEvents s) \<le> 50
      \<and> length (formInteractions s) \<le> 50)"

definition keep_last :: "nat \<Rightarrow> 'a list \<Rightarrow> 'a list" where
  "keep_last cap xs = drop (length xs - cap) xs"

text \<open>The declared identity contains one of the automation-related substrings, in any letter case.\<close>

definition automation_substrings :: "string list" where
  "automation_substrings =
     [''bot'', ''crawler'', ''spider'', ''headless'', ''automation'', ''playwright'',
      ''selenium'', ''cypress'']"

definition identity_match :: "string \<Rightarrow> bool" where
  "identity_match ua = list_ex (str_includes (toLowerCase ua)) automation_substrings"



text \<open>A number of the unit interval, and a number of the unit interval or NaN.\<close>

definition in_unit :: "jsnum \<Rightarrow> bool" where
  "in_unit x = (case x of Fin v \<Rightarrow> 0 \<le> v \<and> v \<le> 1 | _ \<Rightarrow> False)"

definition unit_or_NaN :: "jsnum \<Rightarrow> bool" where
  "unit_or_NaN x = (x = NaN \<or> in_unit x)"

text \<open>
  An operation other than a delayed automation check that finds the outer and inner window
  dimensions equal.
\<close>

fun no_viewport_bump :: "op \<Rightarrow> bool" where
  "no_viewport_bump (Automation_timeout b) =
     (outerHeight b \<noteq> innerHeight b \<or> outerWidth b \<noteq> innerWidth b)"
| "no_viewport_bump _ = True"

section \<open>Example inputs\<close>

text \<open>A browser with no automation marker, an empty document and a window larger than its viewport.\<close>

definition plain_browser :: browser where
  "plain_browser =
     \<lparr>now = 1000, elementFromPoint = (\<lambda>x y. Inr None), userAgent = ''Mozilla/5.0'',
      webdriver = False, win_cdp = False, win_pwMeta = False, outerHeight = 900,
      innerHeight = 800, outerWidth = 1200, innerWidth = 1200, scrollY = 0\<rparr>"

text \<open>The same browser with a 20 by 20 element at the origin under every point.\<close>

definition button_browser :: browser where
  "button_browser =
     plain_browser\<lparr>elementFromPoint :=
       (\<lambda>x y. Inr (Some \<lparr>r_left = 0, r_top = 0, r_width = 20, r_height = 20\<rparr>))\<rparr>"

text \<open>Three scroll samples 100 ms apart and two clicks on the centre of the element.\<close>

definition nav_example :: detector where
  "nav_example =
     new_detector
       \<lparr>clickEvents :=
          [\<lparr>c_x = 10, c_y = 10, c_target = ''BUTTON'', c_time = 300\<rparr>,
           \<lparr>c_x = 10, c_y = 10, c_target = ''BUTTON'', c_time = 400\<rparr>],
        scrollEvents :=
          [\<lparr>s_scrollY = 0, s_time = 0\<rparr>, \<lparr>s_scrollY = 100, s_time = 100\<rparr>,
           \<lparr>s_scrollY = 200, s_time = 200\<rparr>]\<rparr>"

text \<open>The navigation example after five calls to two privileged endpoints.\<close>

definition tier_example :: detector where
  "tier_example = nav_example\<lparr>botEndpointHits := [(''/bot/search'', 2), (''/bot/book'', 3)]\<rparr>"

text \<open>Two and three pointer samples on a horizontal line, 50 ms apart.\<close>

definition two_moves :: detector where
  "two_moves =
     new_detector\<lparr>mouseMovements :=
       [\<lparr>m_x = 0, m_y = 0, m_time = 0\<rparr>, \<lparr>m_x = 10, m_y = 0, m_time = 50\<rparr>]\<rparr>"

definition three_moves :: detector where
  "three_moves =
     new_detector\<lparr>mouseMovements :=
       [\<lparr>m_x = 0, m_y = 0, m_time = 0\<rparr>, \<lparr>m_x = 10, m_y = 0, m_time = 50\<rparr>,
        \<lparr>m_x = 20, m_y = 0, m_time = 100\<rparr>]\<rparr>"

text \<open>A single key sample.\<close>

definition one_key :: detector where
  "one_key =
     new_detector\<lparr>keyPressTimings :=
       [\<lparr>k_time = 0, k_shift = False, k_ctrl = False, k_alt = False, k_meta = False\<rparr>]\<rparr>"

text \<open>A browser whose element lookup throws, and a detector with two pointer samples and two clicks.\<close>

definition throwing_browser :: browser where
  "throwing_browser = plain_browser\<lparr>elementFromPoint := (\<lambda>x y. Inl TypeError)\<rparr>"

definition raise_example :: detector where
  "raise_example =
     nav_example\<lparr>mouseMovements := mouseMovements two_moves, confidenceScore := Fin 0.8\<rparr>"

text \<open>A detector whose click buffer is full, and a burst of raw events after \<open>start\<close>.\<close>

definition full_clicks :: detector where
  "full_clicks =
     new_detector\<lparr>clickEvents :=
       replicate 50 \<lparr>c_x = 0, c_y = 0, c_target = ''DIV'', c_time = 0\<rparr>\<rparr>"

definition burst :: "op list" where
  "burst =
     [Call_start plain_browser 1,
      Raw_event plain_browser (MouseMove 1 1),
      Raw_event plain_browser (MouseMove 2 2),
      Raw_event (plain_browser\<lparr>now := 2000\<rparr>) (MouseMove 3 3),
      Raw_event plain_browser (Click 5 5 ''DIV'' None),
      Raw_event plain_browser Scroll]"

text \<open>
  Browsers with the automation flag set: one with a window larger than its viewport, one
  whose outer and inner dimensions agree.  A browser that declares a headless identity.
\<close>

definition flagged_browser :: browser where
  "flagged_browser = plain_browser\<lparr>webdriver := True\<rparr>"

definition headless_browser :: browser where
  "headless_browser = plain_browser\<lparr>webdriver := True, outerHeight := 800\<rparr>"

definition declared_browser :: browser where
  "declared_browser = plain_browser\<lparr>userAgent := ''Mozilla/5.0 HeadlessChrome/120.0''\<rparr>"

text \<open>The same browser when its element lookup throws.\<close>

definition declared_throwing_browser :: browser where
  "declared_throwing_browser = declared_browser\<lparr>elementFromPoint := (\<lambda>x y. Inl TypeError)\<rparr>"


section \<open>Arithmetic on finite numbers\<close>

lemma jsnum_arith [simp]:
  "Fin a + Fin b = Fin (a + b)"
  "Fin a - Fin b = Fin (a - b)"
  "Fin a * Fin b = Fin (a * b)"
  "b \<noteq> 0 \<Longrightarrow> Fin a / Fin b = Fin (a / b)"
  "Fin 0 / Fin 0 = NaN"
  "(Fin a < Fin b) = (a < b)"
  "(Fin a \<le> Fin b) = (a \<le> b)"
  by (simp_all add: plus_jsnum_def minus_jsnum_def times_jsnum_def divide_jsnum_def
      less_jsnum_def less_eq_jsnum_def)

lemma intervals_diffs: "intervals ts = map Fin (diffs ts)"
  by (induction ts rule: diffs.induct) simp_all

lemma length_diffs: "length (diffs ts) = length ts - 1"
  by (induction ts rule: diffs.induct) simp_all

lemma foldl_plus_Fin: "foldl (\<lambda>sum val. sum + val) (Fin a) (map Fin xs) = Fin (a + sum_list xs)"
  by (induction xs arbitrary: a) (simp_all add: add.assoc)

lemma foldl_sq_Fin:
  "foldl (\<lambda>sum val. sum + Math_pow2 (val - Fin m)) (Fin a) (map Fin xs)
     = Fin (a + (\<Sum>x\<leftarrow>xs. (x - m)\<^sup>2))"
  by (induction xs arbitrary: a) (simp_all add: Math_pow2_def power2_eq_square add.assoc)

lemma foldl_sqsum_Fin:
  "foldl (\<lambda>acc i. acc + i * i) (Fin a) (map Fin xs) = Fin (a + (\<Sum>x\<leftarrow>xs. x * x))"
  by (induction xs arbitrary: a) (simp_all add: add.assoc)

lemma pvariance_nonneg: "0 \<le> pvariance xs"
  unfolding pvariance_def by (intro divide_nonneg_nonneg sum_list_nonneg) auto

lemma Math_min_Fin [simp]: "Math_min (Fin a) (Fin b) = Fin (min a b)"
  by (simp add: min_def)

lemma Math_max_Fin [simp]: "Math_max (Fin a) (Fin b) = Fin (max a b)"
  by (simp add: max_def)

lemma scrollRegularity_Fin:
  assumes "2 \<le> length (scrollEvents s)"
  shows "scrollRegularity s = Fin (scroll_regularity (map s_time (scrollEvents s)))"
proof -
  let ?ds = "diffs (map s_time (scrollEvents s))"
  have n: "real (length ?ds) \<noteq> 0" using assms by (simp add: length_diffs)
  have v: "\<not> (\<Sum>x\<leftarrow>?ds. (x - mean ?ds)\<^sup>2) / real (length ?ds) < 0"
    using pvariance_nonneg [of ?ds] by (simp add: pvariance_def)
  show ?thesis
    using n v
    by (simp add: scrollRegularity_def scroll_regularity_def intervals_diffs foldl_plus_Fin
        foldl_sq_Fin Let_def mean_def pvariance_def)
qed

lemma count_centerClicks_ok:
  "list_all (dom_ok b) clicks \<Longrightarrow>
   count_centerClicks b clicks k = Inr (k + length (filter (near_center b) clicks))"
proof (induction clicks arbitrary: k)
  case Nil
  then show ?case by simp
next
  case (Cons c cs)
  have sq: "\<And>x y :: real. \<not> x * x + y * y < 0"
    by (simp add: not_less)
  from Cons show ?case
    by (auto simp: dom_ok_def near_center_def Let_def Math_pow2_def power2_eq_square sq
        split: sum.splits option.splits)
qed

lemma count_centerClicks_Inr_iff:
  "(\<exists>n. count_centerClicks b clicks k = Inr n) = list_all (dom_ok b) clicks"
proof (induction clicks arbitrary: k)
  case Nil
  then show ?case by simp
next
  case (Cons c cs)
  then show ?case
    by (auto simp: dom_ok_def Let_def split: sum.splits option.splits)
qed

lemma nav_both:
  assumes "3 \<le> length (scrollEvents s)" "2 \<le> length (clickEvents s)"
    "list_all (dom_ok b) (clickEvents s)"
  shows "calculateNavigationPatterns b s =
     Inr (Fin (((0.5 + scroll_regularity (map s_time (scrollEvents s))) / 2
                + center_click_ratio b (clickEvents s)) / 2))"
proof -
  have "real (length (clickEvents s)) \<noteq> 0" using assms(2) by auto
  with assms show ?thesis
    by (simp add: calculateNavigationPatterns_def scrollRegularity_Fin count_centerClicks_ok
        center_click_ratio_def Let_def)
qed

lemma nav_scroll_only:
  assumes "3 \<le> length (scrollEvents s)" "length (clickEvents s) < 2"
  shows "calculateNavigationPatterns b s =
     Inr (Fin ((0.5 + scroll_regularity (map s_time (scrollEvents s))) / 2))"
  using assms
  by (simp add: calculateNavigationPatterns_def scrollRegularity_Fin Let_def)

lemma nav_click_only:
  assumes "length (scrollEvents s) < 3" "2 \<le> length (clickEvents s)"
    "list_all (dom_ok b) (clickEvents s)"
  shows "calculateNavigationPatterns b s =
     Inr (Fin ((0.5 + center_click_ratio b (clickEvents s)) / 2))"
proof -
  have "real (length (clickEvents s)) \<noteq> 0" using assms(2) by auto
  with assms show ?thesis
    by (simp add: calculateNavigationPatterns_def count_centerClicks_ok
        center_click_ratio_def Let_def)
qed

lemma nav_neither:
  assumes "length (scrollEvents s) < 3" "length (clickEvents s) < 2"
  shows "calculateNavigationPatterns b s = Inr (Fin 0.5)"
  using assms
  by (simp add: calculateNavigationPatterns_def Let_def)

lemma nav_Fin:
  assumes "calculateNavigationPatterns b s = Inr nav"
  shows "\<exists>n. nav = Fin n"
proof -
  have ok: "2 \<le> length (clickEvents s) \<Longrightarrow> list_all (dom_ok b) (clickEvents s)"
    using assms count_centerClicks_Inr_iff [of b "clickEvents s" 0]
    by (auto simp: calculateNavigationPatterns_def Let_def split: if_splits sum.splits)
  consider "3 \<le> length (scrollEvents s)" "2 \<le> length (clickEvents s)"
    | "3 \<le> length (scrollEvents s)" "length (clickEvents s) < 2"
    | "length (scrollEvents s) < 3" "2 \<le> length (clickEvents s)"
    | "length (scrollEvents s) < 3" "length (clickEvents s) < 2"
    by linarith
  then obtain x where "calculateNavigationPatterns b s = Inr (Fin x)"
    using nav_both [of s b] nav_scroll_only [of s b] nav_click_only [of s b]
      nav_neither [of s b] ok
    by metis
  with assms have "nav = Fin x" by simp
  then show ?thesis by (rule exI)
qed

section \<open>The navigation signal\<close>

lemma nav_example_facts:
  "list_all (dom_ok button_browser) (clickEvents nav_example)"
  "scroll_regularity (map s_time (scrollEvents nav_example)) = 1"
  "center_click_ratio button_browser (clickEvents nav_example) = 1"
  "length (scrollEvents nav_example) = 3"
  "length (clickEvents nav_example) = 2"
  by (simp_all add: nav_example_def new_detector_def button_browser_def plain_browser_def
      dom_ok_def scroll_regularity_def pvariance_def mean_def center_click_ratio_def
      near_center_def)

text \<open>
  C7, as the code has it.  Provided the element lookups do not throw: with at least 3
  scroll samples and at least 2 click samples the navigation signal is the average of the
  click fraction with the average of the neutral 0.5 and the scroll regularity, that is
  \<open>0.125 + 0.25 * regularity + 0.5 * fraction\<close>; with only one sub-signal available it
  is the average of that sub-signal and the neutral 0.5.
\<close>

theorem navigation_signal_blend:
  assumes "list_all (dom_ok b) (clickEvents s)"
  shows "(3 \<le> length (scrollEvents s) \<and> 2 \<le> length (clickEvents s) \<longrightarrow>
            calculateNavigationPatterns b s =
              Inr (Fin (((0.5 + scroll_regularity (map s_time (scrollEvents s))) / 2
                         + center_click_ratio b (clickEvents s)) / 2)))
       \<and> (3 \<le> length (scrollEvents s) \<and> length (clickEvents s) < 2 \<longrightarrow>
            calculateNavigationPatterns b s =
              Inr (Fin ((0.5 + scroll_regularity (map s_time (scrollEvents s))) / 2)))
       \<and> (length (scrollEvents s) < 3 \<and> 2 \<le> length (clickEvents s) \<longrightarrow>
            calculateNavigationPatterns b s =
              Inr (Fin ((0.5 + center_click_ratio b (clickEvents s)) / 2)))"
  using assms nav_both [of s b] nav_scroll_only [of s b] nav_click_only [of s b]
  by blast

theorem navigation_signal_blend_witness:
  "calculateNavigationPatterns button_browser nav_example = Inr (Fin 0.875)
   \<and> calculateNavigationPatterns button_browser (nav_example\<lparr>clickEvents := []\<rparr>)
       = Inr (Fin 0.75)
   \<and> calculateNavigationPatterns button_browser (nav_example\<lparr>scrollEvents := []\<rparr>)
       = Inr (Fin 0.75)"
proof -
  have a: "calculateNavigationPatterns button_browser nav_example = Inr (Fin 0.875)"
    using navigation_signal_blend [of button_browser nav_example]
    by (simp add: nav_example_facts)
  have b: "calculateNavigationPatterns button_browser (nav_example\<lparr>clickEvents := []\<rparr>)
             = Inr (Fin 0.75)"
    using navigation_signal_blend [of button_browser "nav_example\<lparr>clickEvents := []\<rparr>"]
    by (simp add: nav_example_facts)
  have c: "calculateNavigationPatterns button_browser (nav_example\<lparr>scrollEvents := []\<rparr>)
             = Inr (Fin 0.75)"
    using navigation_signal_blend [of button_browser "nav_example\<lparr>scrollEvents := []\<rparr>"]
    by (simp add: nav_example_facts)
  from a b c show ?thesis by blast
qed

text \<open>
  With both sub-signals equal to 1 the navigation signal is 0.875, not their average.
\<close>

theorem navigation_not_average:
  "3 \<le> length (scrollEvents nav_example) \<and> 2 \<le> length (clickEvents nav_example)
   \<and> calculateNavigationPatterns button_browser nav_example
       \<noteq> Inr (Fin ((scroll_regularity (map s_time (scrollEvents nav_example))
                      + center_click_ratio button_browser (clickEvents nav_example)) / 2))"
  using nav_both [of nav_example button_browser]
  by (simp add: nav_example_facts)


section \<open>The extractors return a number or NaN\<close>

lemma fetch_hook_reportEndpoint: "fetch_hook (Str reportEndpoint) s = s"
  by (simp add: fetch_hook_def reportEndpoint_def)

lemma nav_cong:
  assumes c: "clickEvents s' = clickEvents s" and sc: "scrollEvents s' = scrollEvents s"
  shows "calculateNavigationPatterns b s' = calculateNavigationPatterns b s"
  unfolding calculateNavigationPatterns_def scrollRegularity_def c sc ..

lemma mouse_loop_step:
  "mouse_loop (p1 # p2 # p3 # ps) (k0, l0, v0) =
     mouse_loop (p2 # p3 # ps)
       (if \<bar>(m_x p2 - m_x p1) * (m_y p3 - m_y p2) - (m_y p2 - m_y p1) * (m_x p3 - m_x p2)\<bar> < 10
        then Suc k0 else k0,
        Some (Fin (segment_speed p2 p3)),
        (case l0 of None \<Rightarrow> v0 | Some l \<Rightarrow> v0 + Math_abs (Fin (segment_speed p2 p3) - l)))"
proof -
  let ?dx = "m_x p3 - m_x p2" and ?dy = "m_y p3 - m_y p2"
  have nn: "\<not> ?dx * ?dx + ?dy * ?dy < 0" by (simp add: not_less)
  show ?thesis
  proof (cases "0 < m_time p3 - m_time p2")
    case True
    then have "m_time p3 - m_time p2 \<noteq> 0" by simp
    with True nn show ?thesis
      by (simp add: Let_def segment_speed_def cong: option.case_cong)
  next
    case False
    with nn show ?thesis
      by (simp add: Let_def segment_speed_def cong: option.case_cong)
  qed
qed

lemma mouse_loop_Fin:
  assumes "l0 = None \<or> (\<exists>l. l0 = Some (Fin l))"
  shows "\<exists>k l v. mouse_loop ps (k0, l0, Fin v0) = (k, l, Fin v)"
  using assms
proof (induction ps arbitrary: k0 l0 v0)
  case Nil
  then show ?case by simp
next
  case (Cons p1 rest)
  show ?case
  proof (cases rest)
    case Nil
    then show ?thesis by simp
  next
    case r: (Cons p2 rest2)
    show ?thesis
    proof (cases rest2)
      case Nil
      with r show ?thesis by simp
    next
      case r2: (Cons p3 ps')
      obtain v1 where v1: "(case l0 of None \<Rightarrow> Fin v0
          | Some l \<Rightarrow> Fin v0 + Math_abs (Fin (segment_speed p2 p3) - l)) = Fin v1"
        using Cons.prems by auto
      have "\<exists>k l v. mouse_loop rest
          (if \<bar>(m_x p2 - m_x p1) * (m_y p3 - m_y p2) - (m_y p2 - m_y p1) * (m_x p3 - m_x p2)\<bar> < 10
           then Suc k0 else k0, Some (Fin (segment_speed p2 p3)), Fin v1) = (k, l, Fin v)"
        by (rule Cons.IH) simp
      then show ?thesis
        unfolding r r2 mouse_loop_step v1 by simp
    qed
  qed
qed

lemma mouse_loop_short:
  "length ps < 3 \<Longrightarrow> mouse_loop ps acc = acc"
  by (cases "(ps, acc)" rule: mouse_loop.cases) auto

lemma finite_or_NaN_cases: "finite_or_NaN x = (x = NaN \<or> (\<exists>v. x = Fin v))"
  by (cases x) simp_all

lemma finite_or_NaN_times: "finite_or_NaN a \<Longrightarrow> finite_or_NaN (a * Fin w)"
  by (cases a) (simp_all add: times_jsnum_def)

lemma finite_or_NaN_plus: "finite_or_NaN a \<Longrightarrow> finite_or_NaN b \<Longrightarrow> finite_or_NaN (a + b)"
  by (cases a; cases b) (simp_all add: plus_jsnum_def)

lemma calculateMouseEntropy_proper: "finite_or_NaN (calculateMouseEntropy s)"
proof -
  let ?n = "length (mouseMovements s)"
  obtain k l v where loop: "mouse_loop (mouseMovements s) (0, None, Fin 0) = (k, l, Fin v)"
    using mouse_loop_Fin [of None "mouseMovements s" 0 0] by auto
  consider "?n < 2" | "?n = 2" | "3 \<le> ?n" by linarith
  then show ?thesis
  proof cases
    case 1
    then show ?thesis by (simp add: calculateMouseEntropy_def MIN_MOUSE_MOVEMENTS_def)
  next
    case 2
    with loop have "v = 0" by (simp add: mouse_loop_short)
    with 2 loop show ?thesis
      by (simp add: calculateMouseEntropy_def MIN_MOUSE_MOVEMENTS_def Let_def
          times_jsnum_def minus_jsnum_def plus_jsnum_def)
  next
    case 3
    then have "real ?n - 2 \<noteq> 0" by simp
    with 3 loop show ?thesis
      by (simp add: calculateMouseEntropy_def MIN_MOUSE_MOVEMENTS_def Let_def)
  qed
qed

lemma calculateTypingPatterns_proper: "finite_or_NaN (calculateTypingPatterns s)"
proof (cases "diffs (map k_time (keyPressTimings s)) = []")
  case True
  then show ?thesis
    by (simp add: calculateTypingPatterns_def intervals_diffs Let_def
        times_jsnum_def minus_jsnum_def plus_jsnum_def divide_jsnum_def)
next
  case False
  then have "real (length (diffs (map k_time (keyPressTimings s)))) \<noteq> 0" by simp
  then show ?thesis
    by (simp add: calculateTypingPatterns_def intervals_diffs foldl_plus_Fin foldl_sqsum_Fin
        Let_def)
qed

lemma calculateFormFillingPatterns_proper: "finite_or_NaN (calculateFormFillingPatterns s)"
  by (simp add: calculateFormFillingPatterns_def Let_def)

lemma fused_proper:
  assumes "calculateNavigationPatterns b s = Inr nav"
  shows "finite_or_NaN
     (calculateMouseEntropy s * Fin W_MOUSE_ENTROPY
      + calculateTypingPatterns s * Fin W_TYPING_PATTERN
      + nav * Fin W_NAVIGATION_PATTERN
      + calculateFormFillingPatterns s * Fin W_FORM_FILLING)"
proof -
  have "finite_or_NaN nav" using nav_Fin [OF assms] by auto
  then show ?thesis
    by (intro finite_or_NaN_plus finite_or_NaN_times calculateMouseEntropy_proper
        calculateTypingPatterns_proper calculateFormFillingPatterns_proper)
qed


section \<open>The analysis cycle\<close>

lemma reportToServer_sends:
  assumes "calculateNavigationPatterns b s = Inr nav"
  shows "\<exists>r. reportToServer b s = s\<lparr>reports := reports s @ [r]\<rparr>
             \<and> rp_confidenceScore r = confidenceScore s"
proof -
  let ?r = "\<lparr>rp_confidenceScore = confidenceScore s,
             rp_mouseEntropy = calculateMouseEntropy s,
             rp_typingPattern = calculateTypingPatterns s,
             rp_navigationPattern = nav,
             rp_formFilling = calculateFormFillingPatterns s,
             rp_mouseMovements = length (mouseMovements s),
             rp_keyPresses = length (keyPressTimings s),
             rp_clicks = length (clickEvents s),
             rp_scrolls = length (scrollEvents s),
             rp_formInteractions = length (formInteractions s),
             rp_userAgent = userAgent b\<rparr>"
  have "reportToServer b s = s\<lparr>reports := reports s @ [?r]\<rparr>"
    using assms by (simp add: reportToServer_def fetch_hook_reportEndpoint Let_def)
  moreover have "rp_confidenceScore ?r = confidenceScore s" by simp
  ultimately show ?thesis by blast
qed

lemma mouse_cong:
  assumes m: "mouseMovements s' = mouseMovements s"
  shows "calculateMouseEntropy s' = calculateMouseEntropy s"
  unfolding calculateMouseEntropy_def m ..

lemma typing_cong:
  assumes k: "keyPressTimings s' = keyPressTimings s"
  shows "calculateTypingPatterns s' = calculateTypingPatterns s"
  unfolding calculateTypingPatterns_def k ..

lemma form_cong:
  assumes f: "formInteractions s' = formInteractions s"
  shows "calculateFormFillingPatterns s' = calculateFormFillingPatterns s"
  unfolding calculateFormFillingPatterns_def f ..

lemma reportToServer_caught:
  "calculateNavigationPatterns b s = Inl e \<Longrightarrow> reportToServer b s = s"
  by (simp add: reportToServer_def)

lemma runAnalysis_skip:
  assumes "\<not> isAnalyzing s" and "length (mouseMovements s) < 2"
  shows "runAnalysis b s = s"
  using assms by (simp add: runAnalysis_def runAnalysis_try_def MIN_MOUSE_MOVEMENTS_def)

lemma runAnalysis_try_raises_iff:
  "(runAnalysis_try b s = Inl e) =
     (2 \<le> length (mouseMovements s) \<and> calculateNavigationPatterns b s = Inl e)"
  by (auto simp: runAnalysis_try_def MIN_MOUSE_MOVEMENTS_def Let_def split: sum.splits)

lemma runAnalysis_update:
  assumes idle: "\<not> isAnalyzing s" and conf: "confidenceScore s = Fin c"
    and enough: "2 \<le> length (mouseMovements s)"
    and nav: "calculateNavigationPatterns b s = Inr nav"
    and fused: "(if isNaN
                    (calculateMouseEntropy s * Fin W_MOUSE_ENTROPY
                     + calculateTypingPatterns s * Fin W_TYPING_PATTERN
                     + nav * Fin W_NAVIGATION_PATTERN
                     + calculateFormFillingPatterns s * Fin W_FORM_FILLING)
                 then Fin 0.5
                 else calculateMouseEntropy s * Fin W_MOUSE_ENTROPY
                     + calculateTypingPatterns s * Fin W_TYPING_PATTERN
                     + nav * Fin W_NAVIGATION_PATTERN
                     + calculateFormFillingPatterns s * Fin W_FORM_FILLING) = Fin f"
  shows "\<exists>r. runAnalysis b s
               = s\<lparr>confidenceScore := Fin (0.7 * c + 0.3 * f), reports := reports s @ [r]\<rparr>
             \<and> rp_confidenceScore r = Fin (0.7 * c + 0.3 * f)"
proof -
  let ?s2 = "s\<lparr>isAnalyzing := True, confidenceScore := Fin (0.7 * c + 0.3 * f)\<rparr>"
  have e1: "calculateMouseEntropy (s\<lparr>isAnalyzing := True\<rparr>) = calculateMouseEntropy s"
    by (rule mouse_cong) simp
  have e2: "calculateTypingPatterns (s\<lparr>isAnalyzing := True\<rparr>) = calculateTypingPatterns s"
    by (rule typing_cong) simp
  have e3: "calculateFormFillingPatterns (s\<lparr>isAnalyzing := True\<rparr>)
              = calculateFormFillingPatterns s"
    by (rule form_cong) simp
  note extr = e1 e2 e3
  have "calculateNavigationPatterns b (s\<lparr>isAnalyzing := True\<rparr>)
          = calculateNavigationPatterns b s"
    by (rule nav_cong) simp_all
  with nav have nav1: "calculateNavigationPatterns b (s\<lparr>isAnalyzing := True\<rparr>) = Inr nav"
    by simp
  have "calculateNavigationPatterns b ?s2 = calculateNavigationPatterns b s"
    by (rule nav_cong) simp_all
  with nav have nav2: "calculateNavigationPatterns b ?s2 = Inr nav"
    by simp
  have tb: "runAnalysis_try b (s\<lparr>isAnalyzing := True\<rparr>) = Inr (reportToServer b ?s2)"
    using enough conf fused
    by (simp add: runAnalysis_try_def MIN_MOUSE_MOVEMENTS_def nav1 extr Let_def mult.commute)
  obtain r where r: "reportToServer b ?s2 = ?s2\<lparr>reports := reports ?s2 @ [r]\<rparr>"
    and rc: "rp_confidenceScore r = confidenceScore ?s2"
    using reportToServer_sends [OF nav2] by blast
  have "runAnalysis b s = (reportToServer b ?s2)\<lparr>isAnalyzing := False\<rparr>"
    using idle by (simp add: runAnalysis_def tb)
  also have "\<dots> = (?s2\<lparr>reports := reports ?s2 @ [r]\<rparr>)\<lparr>isAnalyzing := False\<rparr>"
    by (simp only: r)
  also have "\<dots> = s\<lparr>confidenceScore := Fin (0.7 * c + 0.3 * f), reports := reports s @ [r]\<rparr>"
    using idle by (cases s) simp
  finally show ?thesis using rc by auto
qed

lemma nan_guard:
  "finite_or_NaN x \<Longrightarrow>
   \<exists>f. (x = Fin f \<or> x = NaN \<and> f = 0.5) \<and> (if isNaN x then Fin 0.5 else x) = Fin f"
proof (cases x)
  case (Fin v)
  show ?thesis by (rule exI [of _ v]) (simp add: Fin)
next
  case NaN
  show ?thesis by (rule exI [of _ "0.5"]) (simp add: NaN)
qed simp_all

text \<open>
  C2.  A cycle entered while no other cycle is in progress, with a numeric confidence
  \<open>c\<close>: with fewer than 2 pointer samples it changes nothing; otherwise, when the
  navigation signal is computed, the four extractor scores are fused with the weights
  0.45, 0.15, 0.25 and 0.15, a NaN fused value counts as 0.5, the confidence becomes
  exactly \<open>0.7 c + 0.3 f\<close> for the fused value \<open>f\<close>, nothing else changes, and one
  report carrying the new confidence is sent.
\<close>

theorem analysis_cycle:
  assumes "\<not> isAnalyzing s" and "confidenceScore s = Fin c"
  shows "(length (mouseMovements s) < 2 \<longrightarrow> runAnalysis b s = s)
       \<and> (2 \<le> length (mouseMovements s) \<and> calculateNavigationPatterns b s = Inr nav \<longrightarrow>
            (\<exists>f r.
               (calculateMouseEntropy s * Fin 0.45 + calculateTypingPatterns s * Fin 0.15
                  + nav * Fin 0.25 + calculateFormFillingPatterns s * Fin 0.15 = Fin f
                \<or> calculateMouseEntropy s * Fin 0.45 + calculateTypingPatterns s * Fin 0.15
                  + nav * Fin 0.25 + calculateFormFillingPatterns s * Fin 0.15 = NaN
                  \<and> f = 0.5)
               \<and> runAnalysis b s
                   = s\<lparr>confidenceScore := Fin (0.7 * c + 0.3 * f),
                       reports := reports s @ [r]\<rparr>
               \<and> rp_confidenceScore r = Fin (0.7 * c + 0.3 * f)))"
proof (intro conjI impI)
  assume "length (mouseMovements s) < 2"
  with assms(1) show "runAnalysis b s = s" by (rule runAnalysis_skip)
next
  let ?fused = "calculateMouseEntropy s * Fin 0.45 + calculateTypingPatterns s * Fin 0.15
                  + nav * Fin 0.25 + calculateFormFillingPatterns s * Fin 0.15"
  assume "2 \<le> length (mouseMovements s) \<and> calculateNavigationPatterns b s = Inr nav"
  then have enough: "2 \<le> length (mouseMovements s)"
    and nav: "calculateNavigationPatterns b s = Inr nav" by simp_all
  have "finite_or_NaN ?fused"
    using fused_proper [OF nav]
    by (simp only: W_MOUSE_ENTROPY_def W_TYPING_PATTERN_def W_NAVIGATION_PATTERN_def
        W_FORM_FILLING_def)
  then obtain f where f: "?fused = Fin f \<or> ?fused = NaN \<and> f = 0.5"
    and g: "(if isNaN ?fused then Fin 0.5 else ?fused) = Fin f"
    using nan_guard [of ?fused] by blast
  from g have "(if isNaN
                    (calculateMouseEntropy s * Fin W_MOUSE_ENTROPY
                     + calculateTypingPatterns s * Fin W_TYPING_PATTERN
                     + nav * Fin W_NAVIGATION_PATTERN
                     + calculateFormFillingPatterns s * Fin W_FORM_FILLING)
                 then Fin 0.5
                 else calculateMouseEntropy s * Fin W_MOUSE_ENTROPY
                     + calculateTypingPatterns s * Fin W_TYPING_PATTERN
                     + nav * Fin W_NAVIGATION_PATTERN
                     + calculateFormFillingPatterns s * Fin W_FORM_FILLING) = Fin f"
    by (simp only: W_MOUSE_ENTROPY_def W_TYPING_PATTERN_def W_NAVIGATION_PATTERN_def
        W_FORM_FILLING_def)
  from runAnalysis_update [OF assms(1) assms(2) enough nav this] f
  show "\<exists>f r. (?fused = Fin f \<or> ?fused = NaN \<and> f = 0.5)
               \<and> runAnalysis b s
                   = s\<lparr>confidenceScore := Fin (0.7 * c + 0.3 * f),
                       reports := reports s @ [r]\<rparr>
               \<and> rp_confidenceScore r = Fin (0.7 * c + 0.3 * f)"
    by blast
qed

lemma three_moves_signals:
  "calculateMouseEntropy three_moves = Fin 0.4"
  "calculateTypingPatterns three_moves = Fin 0.5"
  "calculateNavigationPatterns plain_browser three_moves = Inr (Fin 0.5)"
  "calculateFormFillingPatterns three_moves = Fin 0.5"
  by (simp_all add: calculateMouseEntropy_def calculateTypingPatterns_def
      calculateNavigationPatterns_def calculateFormFillingPatterns_def three_moves_def
      new_detector_def MIN_MOUSE_MOVEMENTS_def MIN_KEYPRESS_SAMPLES_def Let_def)

lemma two_moves_signals:
  "calculateMouseEntropy two_moves = NaN"
  "calculateNavigationPatterns plain_browser two_moves = Inr (Fin 0.5)"
  by (simp_all add: calculateMouseEntropy_def calculateNavigationPatterns_def two_moves_def
      new_detector_def MIN_MOUSE_MOVEMENTS_def Let_def
      times_jsnum_def minus_jsnum_def plus_jsnum_def)

theorem analysis_cycle_witness:
  "runAnalysis plain_browser new_detector = new_detector
   \<and> confidenceScore (runAnalysis plain_browser three_moves) = Fin 0.4865
   \<and> length (reports (runAnalysis plain_browser three_moves)) = 1
   \<and> confidenceScore (runAnalysis plain_browser two_moves) = Fin 0.5"
proof -
  have a: "runAnalysis plain_browser new_detector = new_detector"
    using analysis_cycle [of new_detector "0.5" plain_browser "Fin 0"]
    by (simp add: new_detector_def)
  have "\<not> isAnalyzing three_moves" "confidenceScore three_moves = Fin (1/2)"
    "2 \<le> length (mouseMovements three_moves)" "reports three_moves = []"
    by (simp_all add: three_moves_def new_detector_def)
  with analysis_cycle [of three_moves "1/2" plain_browser "Fin 0.5"]
  have b: "confidenceScore (runAnalysis plain_browser three_moves) = Fin 0.4865
           \<and> length (reports (runAnalysis plain_browser three_moves)) = 1"
    by (auto simp: three_moves_signals)
  have "\<not> isAnalyzing two_moves" "confidenceScore two_moves = Fin (1/2)"
    "2 \<le> length (mouseMovements two_moves)"
    by (simp_all add: two_moves_def new_detector_def)
  with analysis_cycle [of two_moves "1/2" plain_browser "Fin 0.5"]
  have c: "confidenceScore (runAnalysis plain_browser two_moves) = Fin 0.5"
    by (auto simp: two_moves_signals times_jsnum_def plus_jsnum_def)
  from a b c show ?thesis by blast
qed

section \<open>Exceptions in the analysis cycle\<close>

text \<open>
  C10.  When the body of the cycle throws, \<open>runAnalysis\<close> still returns: the state it
  returns is the one the cycle started from with the confidence replaced by 0.5, so the
  previous confidence is discarded, no report is sent and the in-progress flag is clear.
\<close>

theorem analysis_exception:
  assumes "\<not> isAnalyzing s" and "runAnalysis_try b (s\<lparr>isAnalyzing := True\<rparr>) = Inl e"
  shows "runAnalysis b s = s\<lparr>confidenceScore := Fin 0.5\<rparr>
       \<and> confidenceScore (runAnalysis b s) = Fin 0.5
       \<and> \<not> isAnalyzing (runAnalysis b s)
       \<and> reports (runAnalysis b s) = reports s"
proof -
  have "runAnalysis b s = s\<lparr>confidenceScore := Fin 0.5\<rparr>"
    using assms by (cases s) (simp add: runAnalysis_def)
  with assms(1) show ?thesis by simp
qed

theorem analysis_exception_witness:
  "confidenceScore raise_example = Fin 0.8
   \<and> runAnalysis_try throwing_browser (raise_example\<lparr>isAnalyzing := True\<rparr>) = Inl TypeError
   \<and> confidenceScore (runAnalysis throwing_browser raise_example) = Fin 0.5
   \<and> \<not> isAnalyzing (runAnalysis throwing_browser raise_example)"
proof -
  have idle: "\<not> isAnalyzing raise_example"
    by (simp add: raise_example_def nav_example_def new_detector_def)
  have thrown: "runAnalysis_try throwing_browser (raise_example\<lparr>isAnalyzing := True\<rparr>)
                  = Inl TypeError"
    by (simp add: runAnalysis_try_raises_iff calculateNavigationPatterns_def raise_example_def
        nav_example_def two_moves_def new_detector_def throwing_browser_def plain_browser_def
        Let_def)
  have "confidenceScore raise_example = Fin 0.8"
    by (simp add: raise_example_def)
  with analysis_exception [OF idle thrown] thrown idle show ?thesis by simp
qed


section \<open>Bounded buffers\<close>

lemma reportToServer_cases:
  "reportToServer b s = s \<or> (\<exists>r. reportToServer b s = s\<lparr>reports := reports s @ [r]\<rparr>)"
proof (cases "calculateNavigationPatterns b s")
  case (Inl e)
  then show ?thesis by (simp add: reportToServer_caught)
next
  case (Inr nav)
  then show ?thesis using reportToServer_sends [of b s nav] by blast
qed

lemma reportToServer_frame:
  "mouseMovements (reportToServer b s) = mouseMovements s"
  "keyPressTimings (reportToServer b s) = keyPressTimings s"
  "clickEvents (reportToServer b s) = clickEvents s"
  "scrollEvents (reportToServer b s) = scrollEvents s"
  "formInteractions (reportToServer b s) = formInteractions s"
  "confidenceScore (reportToServer b s) = confidenceScore s"
  "botEndpointHits (reportToServer b s) = botEndpointHits s"
  "listeners (reportToServer b s) = listeners s"
  "isAnalyzing (reportToServer b s) = isAnalyzing s"
  using reportToServer_cases [of b s] by auto

lemma push_trim_keep_last:
  "length xs \<le> cap \<Longrightarrow>
   (if cap < length (xs @ [x]) then tl (xs @ [x]) else xs @ [x]) = keep_last cap (xs @ [x])"
  by (cases xs) (auto simp: keep_last_def Suc_diff_le)

lemma push_trim_length:
  "length xs \<le> cap \<Longrightarrow>
   length (if cap < length (xs @ [x]) then tl (xs @ [x]) else xs @ [x]) \<le> cap"
  by auto

lemma handleMouseMove_buffer:
  "mouseMovements (handleMouseMove b x y s) =
     (if 50 \<le> now b - lastMouseTime s
      then (if 200 < length (mouseMovements s @ [\<lparr>m_x = x, m_y = y, m_time = now b\<rparr>])
            then tl (mouseMovements s @ [\<lparr>m_x = x, m_y = y, m_time = now b\<rparr>])
            else mouseMovements s @ [\<lparr>m_x = x, m_y = y, m_time = now b\<rparr>])
      else mouseMovements s)"
  by (simp add: handleMouseMove_def MOUSE_THROTTLE_MS_def MAX_SAMPLES_def Let_def)

lemma handleMouseMove_others:
  "keyPressTimings (handleMouseMove b x y s) = keyPressTimings s"
  "clickEvents (handleMouseMove b x y s) = clickEvents s"
  "scrollEvents (handleMouseMove b x y s) = scrollEvents s"
  "formInteractions (handleMouseMove b x y s) = formInteractions s"
  "reports (handleMouseMove b x y s) = reports s"
  "botEndpointHits (handleMouseMove b x y s) = botEndpointHits s"
  by (simp_all add: handleMouseMove_def Let_def)

lemma handleKeyDown_buffer:
  "keyPressTimings (handleKeyDown b sh ct al me s) =
     (if 25 \<le> now b - lastKeyTime s
      then (if 200 < length (keyPressTimings s @
                 [\<lparr>k_time = now b, k_shift = sh, k_ctrl = ct, k_alt = al, k_meta = me\<rparr>])
            then tl (keyPressTimings s @
                 [\<lparr>k_time = now b, k_shift = sh, k_ctrl = ct, k_alt = al, k_meta = me\<rparr>])
            else keyPressTimings s @
                 [\<lparr>k_time = now b, k_shift = sh, k_ctrl = ct, k_alt = al, k_meta = me\<rparr>])
      else keyPressTimings s)"
  by (simp add: handleKeyDown_def detectMechanicalTyping_def KEYBOARD_THROTTLE_MS_def
      MAX_SAMPLES_def Let_def)

lemma handleKeyDown_others:
  "mouseMovements (handleKeyDown b sh ct al me s) = mouseMovements s"
  "clickEvents (handleKeyDown b sh ct al me s) = clickEvents s"
  "scrollEvents (handleKeyDown b sh ct al me s) = scrollEvents s"
  "formInteractions (handleKeyDown b sh ct al me s) = formInteractions s"
  "reports (handleKeyDown b sh ct al me s) = reports s"
  "botEndpointHits (handleKeyDown b sh ct al me s) = botEndpointHits s"
  by (simp_all add: handleKeyDown_def detectMechanicalTyping_def Let_def)

lemma handleClick_buffer:
  "clickEvents (handleClick b x y tag r s) =
     (if 50 < length (clickEvents s @ [\<lparr>c_x = x, c_y = y, c_target = tag, c_time = now b\<rparr>])
      then tl (clickEvents s @ [\<lparr>c_x = x, c_y = y, c_target = tag, c_time = now b\<rparr>])
      else clickEvents s @ [\<lparr>c_x = x, c_y = y, c_target = tag, c_time = now b\<rparr>])"
  by (simp add: handleClick_def QUARTER_SAMPLES_def MAX_SAMPLES_def Let_def
      reportToServer_frame split: option.splits)

lemma handleClick_others:
  "mouseMovements (handleClick b x y tag r s) = mouseMovements s"
  "keyPressTimings (handleClick b x y tag r s) = keyPressTimings s"
  "scrollEvents (handleClick b x y tag r s) = scrollEvents s"
  "formInteractions (handleClick b x y tag r s) = formInteractions s"
  "botEndpointHits (handleClick b x y tag r s) = botEndpointHits s"
  by (simp_all add: handleClick_def Let_def reportToServer_frame split: option.splits)

lemma handleScroll_buffer:
  "scrollEvents (handleScroll b s) =
     (if 50 < length (scrollEvents s @ [\<lparr>s_scrollY = scrollY b, s_time = now b\<rparr>])
      then tl (scrollEvents s @ [\<lparr>s_scrollY = scrollY b, s_time = now b\<rparr>])
      else scrollEvents s @ [\<lparr>s_scrollY = scrollY b, s_time = now b\<rparr>])"
  by (simp add: handleScroll_def detectMechanicalScrolling_def QUARTER_SAMPLES_def
      MAX_SAMPLES_def Let_def)

lemma handleScroll_others:
  "mouseMovements (handleScroll b s) = mouseMovements s"
  "keyPressTimings (handleScroll b s) = keyPressTimings s"
  "clickEvents (handleScroll b s) = clickEvents s"
  "formInteractions (handleScroll b s) = formInteractions s"
  "reports (handleScroll b s) = reports s"
  "botEndpointHits (handleScroll b s) = botEndpointHits s"
  by (simp_all add: handleScroll_def detectMechanicalScrolling_def Let_def)

lemma handleFormInteraction_buffer:
  "formInteractions (handleFormInteraction b tag name ident s) =
     (if tag = ''INPUT'' \<or> tag = ''SELECT'' \<or> tag = ''TEXTAREA''
      then (if 50 < length (formInteractions s @
                 [\<lparr>f_field = (if name \<noteq> [] then name else if ident \<noteq> [] then ident else tag),
                   f_time = now b\<rparr>])
            then tl (formInteractions s @
                 [\<lparr>f_field = (if name \<noteq> [] then name else if ident \<noteq> [] then ident else tag),
                   f_time = now b\<rparr>])
            else formInteractions s @
                 [\<lparr>f_field = (if name \<noteq> [] then name else if ident \<noteq> [] then ident else tag),
                   f_time = now b\<rparr>])
      else formInteractions s)"
  by (simp add: handleFormInteraction_def QUARTER_SAMPLES_def MAX_SAMPLES_def Let_def
      reportToServer_frame)

lemma handleFormInteraction_others:
  "mouseMovements (handleFormInteraction b tag name ident s) = mouseMovements s"
  "keyPressTimings (handleFormInteraction b tag name ident s) = keyPressTimings s"
  "clickEvents (handleFormInteraction b tag name ident s) = clickEvents s"
  "scrollEvents (handleFormInteraction b tag name ident s) = scrollEvents s"
  "botEndpointHits (handleFormInteraction b tag name ident s) = botEndpointHits s"
  by (simp_all add: handleFormInteraction_def Let_def reportToServer_frame)

lemma runAnalysis_try_frame:
  assumes "runAnalysis_try b s = Inr s'"
  shows "mouseMovements s' = mouseMovements s" "keyPressTimings s' = keyPressTimings s"
    "clickEvents s' = clickEvents s" "scrollEvents s' = scrollEvents s"
    "formInteractions s' = formInteractions s" "botEndpointHits s' = botEndpointHits s"
    "listeners s' = listeners s"
  using assms
  by (auto simp: runAnalysis_try_def Let_def reportToServer_frame split: if_splits sum.splits)

lemma runAnalysis_cases:
  "runAnalysis b s = s
   \<or> (\<exists>s2. runAnalysis_try b (s\<lparr>isAnalyzing := True\<rparr>) = Inr s2
             \<and> runAnalysis b s = s2\<lparr>isAnalyzing := False\<rparr>)
   \<or> runAnalysis b s = s\<lparr>confidenceScore := Fin 0.5, isAnalyzing := False\<rparr>"
  by (cases "runAnalysis_try b (s\<lparr>isAnalyzing := True\<rparr>)")
    (simp_all add: runAnalysis_def Let_def)

lemma runAnalysis_frame:
  "mouseMovements (runAnalysis b s) = mouseMovements s
   \<and> keyPressTimings (runAnalysis b s) = keyPressTimings s
   \<and> clickEvents (runAnalysis b s) = clickEvents s
   \<and> scrollEvents (runAnalysis b s) = scrollEvents s
   \<and> formInteractions (runAnalysis b s) = formInteractions s
   \<and> botEndpointHits (runAnalysis b s) = botEndpointHits s
   \<and> listeners (runAnalysis b s) = listeners s"
proof -
  from runAnalysis_cases [of b s] show ?thesis
  proof (elim disjE exE conjE)
    assume "runAnalysis b s = s"
    then show ?thesis by simp
  next
    fix s2
    assume t: "runAnalysis_try b (s\<lparr>isAnalyzing := True\<rparr>) = Inr s2"
      and r: "runAnalysis b s = s2\<lparr>isAnalyzing := False\<rparr>"
    show ?thesis
      unfolding r using runAnalysis_try_frame [OF t] by simp
  next
    assume "runAnalysis b s = s\<lparr>confidenceScore := Fin 0.5, isAnalyzing := False\<rparr>"
    then show ?thesis by simp
  qed
qed

lemma handleMouseMove_length:
  "length (mouseMovements s) \<le> 200 \<Longrightarrow>
   length (mouseMovements (handleMouseMove b x y s)) \<le> 200"
  unfolding handleMouseMove_buffer
  using push_trim_length [of "mouseMovements s" 200] by (cases "50 \<le> now b - lastMouseTime s") simp_all

lemma handleKeyDown_length:
  "length (keyPressTimings s) \<le> 200 \<Longrightarrow>
   length (keyPressTimings (handleKeyDown b sh ct al me s)) \<le> 200"
  unfolding handleKeyDown_buffer
  using push_trim_length [of "keyPressTimings s" 200] by (cases "25 \<le> now b - lastKeyTime s") simp_all

lemma handleClick_length:
  "length (clickEvents s) \<le> 50 \<Longrightarrow>
   length (clickEvents (handleClick b x y tag r s)) \<le> 50"
  unfolding handleClick_buffer by (rule push_trim_length)

lemma handleScroll_length:
  "length (scrollEvents s) \<le> 50 \<Longrightarrow> length (scrollEvents (handleScroll b s)) \<le> 50"
  unfolding handleScroll_buffer by (rule push_trim_length)

lemma handleFormInteraction_length:
  "length (formInteractions s) \<le> 50 \<Longrightarrow>
   length (formInteractions (handleFormInteraction b tag name ident s)) \<le> 50"
  unfolding handleFormInteraction_buffer
  using push_trim_length [of "formInteractions s" 50]
  by (cases "tag = ''INPUT'' \<or> tag = ''SELECT'' \<or> tag = ''TEXTAREA''") simp_all

lemma handle_within_capacity:
  assumes "within_capacity s"
  shows "within_capacity (handle b ev s)"
proof (cases ev)
  case (MouseMove x y)
  with assms show ?thesis
    unfolding within_capacity_def
    by (simp add: handleMouseMove_length handleMouseMove_others)
next
  case (KeyDown sh ct al me)
  with assms show ?thesis
    unfolding within_capacity_def
    by (simp add: handleKeyDown_length handleKeyDown_others)
next
  case (Click x y tag r)
  with assms show ?thesis
    unfolding within_capacity_def
    by (simp add: handleClick_length handleClick_others)
next
  case Scroll
  with assms show ?thesis
    unfolding within_capacity_def
    by (simp add: handleScroll_length handleScroll_others)
next
  case (Input tag name ident)
  with assms show ?thesis
    unfolding within_capacity_def
    by (simp add: handleFormInteraction_length handleFormInteraction_others)
qed

lemma checkBotHeaders_then_cases:
  "checkBotHeaders_then b s = s
   \<or> checkBotHeaders_then b s = reportToServer b (s\<lparr>confidenceScore := Fin 0.95\<rparr>)"
  by (simp add: checkBotHeaders_then_def Let_def)

lemma buffers_start:
  "mouseMovements (start b h s) = mouseMovements s"
  "keyPressTimings (start b h s) = keyPressTimings s"
  "clickEvents (start b h s) = clickEvents s"
  "scrollEvents (start b h s) = scrollEvents s"
  "formInteractions (start b h s) = formInteractions s"
  "botEndpointHits (start b h s) = botEndpointHits s"
  by (simp_all add: start_def detectAutomationLibraries_def scheduleAnalysis_def)

lemma buffers_checkForAutomation:
  "mouseMovements (checkForAutomation b s) = mouseMovements s"
  "keyPressTimings (checkForAutomation b s) = keyPressTimings s"
  "clickEvents (checkForAutomation b s) = clickEvents s"
  "scrollEvents (checkForAutomation b s) = scrollEvents s"
  "formInteractions (checkForAutomation b s) = formInteractions s"
  "botEndpointHits (checkForAutomation b s) = botEndpointHits s"
  by (simp_all add: checkForAutomation_def Let_def)

lemma buffers_checkBotHeaders_then:
  "mouseMovements (checkBotHeaders_then b s) = mouseMovements s"
  "keyPressTimings (checkBotHeaders_then b s) = keyPressTimings s"
  "clickEvents (checkBotHeaders_then b s) = clickEvents s"
  "scrollEvents (checkBotHeaders_then b s) = scrollEvents s"
  "formInteractions (checkBotHeaders_then b s) = formInteractions s"
  "botEndpointHits (checkBotHeaders_then b s) = botEndpointHits s"
  using checkBotHeaders_then_cases [of b s] by (auto simp: reportToServer_frame)

lemma buffers_fetch_hook:
  "mouseMovements (fetch_hook arg s) = mouseMovements s"
  "keyPressTimings (fetch_hook arg s) = keyPressTimings s"
  "clickEvents (fetch_hook arg s) = clickEvents s"
  "scrollEvents (fetch_hook arg s) = scrollEvents s"
  "formInteractions (fetch_hook arg s) = formInteractions s"
  by (simp_all add: fetch_hook_def split: fetch_arg.splits)

lemma step_within_capacity:
  assumes "within_capacity s"
  shows "within_capacity (step x s)"
proof (cases x)
  case (Call_start b h)
  with assms show ?thesis
    by (simp add: within_capacity_def buffers_start)
next
  case Call_stop
  then show ?thesis by (simp add: within_capacity_def stop_def)
next
  case (Raw_event b ev)
  with assms show ?thesis by (simp add: deliver_def handle_within_capacity)
next
  case (Analysis_callback b h)
  with assms show ?thesis
    by (simp add: within_capacity_def scheduleAnalysis_def runAnalysis_frame)
next
  case (Automation_timeout b)
  with assms show ?thesis by (simp add: within_capacity_def buffers_checkForAutomation)
next
  case (Header_response b)
  with assms show ?thesis
    by (simp add: within_capacity_def buffers_checkBotHeaders_then)
next
  case (Window_fetch arg)
  with assms show ?thesis
    by (simp add: within_capacity_def buffers_fetch_hook)
qed

lemma run_Cons: "run (x # ops) s = run ops (step x s)"
  by (simp add: run_def)

lemma run_Nil: "run [] s = s"
  by (simp add: run_def)

lemma run_within_capacity: "within_capacity s \<Longrightarrow> within_capacity (run ops s)"
  by (induction ops arbitrary: s) (simp_all add: run_Nil run_Cons step_within_capacity)

text \<open>
  C5.  After any sequence of operations on a new detector, raw events at any pace among
  them, the pointer and key buffers hold at most 200 samples and the click, scroll and
  form buffers at most 50.  A handler that records a sample into a buffer within its
  capacity leaves the last 200 (or 50) samples of the old buffer followed by the new
  sample, in order: on overflow the oldest sample is the one dropped.  The pointer and key
  handlers record once their throttle interval has passed, the click and scroll handlers
  always, the form handler for every \<open>INPUT\<close>, \<open>SELECT\<close> or \<open>TEXTAREA\<close> target.
\<close>

theorem buffers_bounded_fifo:
  "within_capacity (run ops new_detector)
   \<and> (length (mouseMovements s) \<le> 200 \<and> 50 \<le> now b - lastMouseTime s \<longrightarrow>
        mouseMovements (handleMouseMove b x y s)
          = keep_last 200 (mouseMovements s @ [\<lparr>m_x = x, m_y = y, m_time = now b\<rparr>]))
   \<and> (length (keyPressTimings s) \<le> 200 \<and> 25 \<le> now b - lastKeyTime s \<longrightarrow>
        keyPressTimings (handleKeyDown b sh ct al me s)
          = keep_last 200 (keyPressTimings s @
              [\<lparr>k_time = now b, k_shift = sh, k_ctrl = ct, k_alt = al, k_meta = me\<rparr>]))
   \<and> (length (clickEvents s) \<le> 50 \<longrightarrow>
        clickEvents (handleClick b x y tag r s)
          = keep_last 50 (clickEvents s @
              [\<lparr>c_x = x, c_y = y, c_target = tag, c_time = now b\<rparr>]))
   \<and> (length (scrollEvents s) \<le> 50 \<longrightarrow>
        scrollEvents (handleScroll b s)
          = keep_last 50 (scrollEvents s @ [\<lparr>s_scrollY = scrollY b, s_time = now b\<rparr>]))
   \<and> (length (formInteractions s) \<le> 50
        \<and> (tag = ''INPUT'' \<or> tag = ''SELECT'' \<or> tag = ''TEXTAREA'') \<longrightarrow>
        formInteractions (handleFormInteraction b tag name ident s)
          = keep_last 50 (formInteractions s @
              [\<lparr>f_field = (if name \<noteq> [] then name else if ident \<noteq> [] then ident else tag),
                f_time = now b\<rparr>]))"
proof (intro conjI impI)
  have "within_capacity new_detector"
    by (simp add: within_capacity_def new_detector_def)
  then show "within_capacity (run ops new_detector)" by (rule run_within_capacity)
next
  assume "length (mouseMovements s) \<le> 200 \<and> 50 \<le> now b - lastMouseTime s"
  then show "mouseMovements (handleMouseMove b x y s)
      = keep_last 200 (mouseMovements s @ [\<lparr>m_x = x, m_y = y, m_time = now b\<rparr>])"
    using push_trim_keep_last [of "mouseMovements s" 200]
    by (simp add: handleMouseMove_buffer)
next
  assume "length (keyPressTimings s) \<le> 200 \<and> 25 \<le> now b - lastKeyTime s"
  then show "keyPressTimings (handleKeyDown b sh ct al me s)
      = keep_last 200 (keyPressTimings s @
          [\<lparr>k_time = now b, k_shift = sh, k_ctrl = ct, k_alt = al, k_meta = me\<rparr>])"
    using push_trim_keep_last [of "keyPressTimings s" 200]
    by (simp add: handleKeyDown_buffer)
next
  assume "length (clickEvents s) \<le> 50"
  then show "clickEvents (handleClick b x y tag r s)
      = keep_last 50 (clickEvents s @ [\<lparr>c_x = x, c_y = y, c_target = tag, c_time = now b\<rparr>])"
    using push_trim_keep_last [of "clickEvents s" 50]
    by (simp add: handleClick_buffer)
next
  assume "length (scrollEvents s) \<le> 50"
  then show "scrollEvents (handleScroll b s)
      = keep_last 50 (scrollEvents s @ [\<lparr>s_scrollY = scrollY b, s_time = now b\<rparr>])"
    using push_trim_keep_last [of "scrollEvents s" 50]
    by (simp add: handleScroll_buffer)
next
  assume "length (formInteractions s) \<le> 50
        \<and> (tag = ''INPUT'' \<or> tag = ''SELECT'' \<or> tag = ''TEXTAREA'')"
  then show "formInteractions (handleFormInteraction b tag name ident s)
      = keep_last 50 (formInteractions s @
          [\<lparr>f_field = (if name \<noteq> [] then name else if ident \<noteq> [] then ident else tag),
            f_time = now b\<rparr>])"
    using push_trim_keep_last [of "formInteractions s" 50]
    by (simp add: handleFormInteraction_buffer)
qed

theorem buffers_bounded_fifo_witness:
  "within_capacity (run burst new_detector)
   \<and> mouseMovements (handleMouseMove plain_browser 1 2 full_clicks)
       = [\<lparr>m_x = 1, m_y = 2, m_time = 1000\<rparr>]
   \<and> keyPressTimings (handleKeyDown plain_browser True False False False full_clicks)
       = [\<lparr>k_time = 1000, k_shift = True, k_ctrl = False, k_alt = False, k_meta = False\<rparr>]
   \<and> clickEvents (handleClick plain_browser 1 2 ''INPUT'' None full_clicks)
       = replicate 49 \<lparr>c_x = 0, c_y = 0, c_target = ''DIV'', c_time = 0\<rparr>
         @ [\<lparr>c_x = 1, c_y = 2, c_target = ''INPUT'', c_time = 1000\<rparr>]
   \<and> scrollEvents (handleScroll plain_browser full_clicks)
       = [\<lparr>s_scrollY = 0, s_time = 1000\<rparr>]
   \<and> formInteractions (handleFormInteraction plain_browser ''INPUT'' ''origin'' [] full_clicks)
       = [\<lparr>f_field = ''origin'', f_time = 1000\<rparr>]
   \<and> formInteractions (handleFormInteraction plain_browser ''SELECT'' [] [] full_clicks)
       = [\<lparr>f_field = ''SELECT'', f_time = 1000\<rparr>]
   \<and> formInteractions (handleFormInteraction plain_browser ''TEXTAREA'' [] ''note'' full_clicks)
       = [\<lparr>f_field = ''note'', f_time = 1000\<rparr>]"
  using buffers_bounded_fifo [where ops = burst and s = full_clicks and b = plain_browser
      and x = 1 and y = 2 and sh = True and ct = False and al = False and me = False
      and tag = "''INPUT''" and r = None and name = "''origin''" and ident = "[]"]
    buffers_bounded_fifo [where s = full_clicks and b = plain_browser
      and tag = "''SELECT''" and name = "[]" and ident = "[]"]
    buffers_bounded_fifo [where s = full_clicks and b = plain_browser
      and tag = "''TEXTAREA''" and name = "[]" and ident = "''note''"]
  by (simp add: full_clicks_def new_detector_def plain_browser_def keep_last_def)


section \<open>After stop\<close>

lemma all_kinds_UNIV: "k \<in> all_kinds"
  by (cases k) (simp_all add: all_kinds_def)

lemma stop_fields:
  "mouseMovements (stop s) = []" "keyPressTimings (stop s) = []" "clickEvents (stop s) = []"
  "scrollEvents (stop s) = []" "formInteractions (stop s) = []" "listeners (stop s) = {}"
  "reports (stop s) = reports s" "botEndpointHits (stop s) = botEndpointHits s"
  "confidenceScore (stop s) = confidenceScore s"
  using all_kinds_UNIV by (auto simp: stop_def)


lemma identity_match_code:
  "identity_match (userAgent b) =
     (let ua = toLowerCase (userAgent b)
      in str_includes ua ''bot'' \<or> str_includes ua ''crawler'' \<or> str_includes ua ''spider''
         \<or> str_includes ua ''headless'' \<or> str_includes ua ''automation''
         \<or> str_includes ua ''playwright'' \<or> str_includes ua ''selenium''
         \<or> str_includes ua ''cypress'')"
  by (simp add: identity_match_def automation_substrings_def Let_def)

lemma checkBotHeaders_then_match:
  "identity_match (userAgent b) \<Longrightarrow>
   checkBotHeaders_then b s = reportToServer b (s\<lparr>confidenceScore := Fin 0.95\<rparr>)"
  unfolding identity_match_code checkBotHeaders_then_def Let_def by (rule if_P)










lemma declared_browser_match: "identity_match (userAgent declared_browser)"
  unfolding identity_match_def automation_substrings_def declared_browser_def
    plain_browser_def
  by code_simp




section \<open>Endpoint usage counters\<close>

lemma hit_count_bump:
  "hit_count (bump_hit k hits) k' = hit_count hits k' + (if k' = k then 1 else 0)"
  by (induction hits) (auto simp: hit_count_def)

lemma hit_count_fetch_hook:
  "hit_count (botEndpointHits (fetch_hook (Str url) s)) k
     = hit_count (botEndpointHits s) k
       + (if startsWith url ''/bot/'' \<and> \<not> str_includes url ''behaviorMetrics''
             \<and> k = before_query url
          then 1 else 0)"
  by (simp add: fetch_hook_def hit_count_bump)

lemma handle_hits: "botEndpointHits (handle b ev s) = botEndpointHits s"
  by (cases ev)
    (simp_all add: handleMouseMove_others handleKeyDown_others handleClick_others
      handleScroll_others handleFormInteraction_others)

lemma step_hits_mono:
  "hit_count (botEndpointHits s) k \<le> hit_count (botEndpointHits (step x s)) k"
proof (cases x)
  case (Call_start b h)
  then show ?thesis by (simp add: buffers_start)
next
  case Call_stop
  then show ?thesis by (simp add: stop_fields)
next
  case (Raw_event b ev)
  then show ?thesis by (simp add: deliver_def handle_hits)
next
  case (Analysis_callback b h)
  then show ?thesis by (simp add: scheduleAnalysis_def runAnalysis_frame)
next
  case (Automation_timeout b)
  then show ?thesis by (simp add: buffers_checkForAutomation)
next
  case (Header_response b)
  then show ?thesis by (simp add: buffers_checkBotHeaders_then)
next
  case (Window_fetch arg)
  then show ?thesis
    by (cases arg) (simp_all add: hit_count_fetch_hook, simp add: fetch_hook_def)
qed

lemma run_hits_mono:
  "hit_count (botEndpointHits s) k \<le> hit_count (botEndpointHits (run ops s)) k"
proof (induction ops arbitrary: s)
  case Nil
  show ?case by (simp add: run_Nil)
next
  case (Cons x ops)
  have "hit_count (botEndpointHits s) k \<le> hit_count (botEndpointHits (step x s)) k"
    by (rule step_hits_mono)
  also have "\<dots> \<le> hit_count (botEndpointHits (run ops (step x s))) k"
    by (rule Cons.IH)
  finally show ?case by (simp add: run_Cons)
qed

text \<open>
  C9, as the code has it.  A \<open>fetch\<close> call whose first argument is the string \<open>url\<close>
  adds one to the counter of the part of \<open>url\<close> before the first question mark exactly
  when \<open>url\<close> starts with \<open>/bot/\<close> and does not contain \<open>behaviorMetrics\<close> anywhere,
  and changes no other counter; a call with any other argument changes no counter.  No
  operation lowers a counter, and \<open>stop\<close> leaves the counters as they are.
\<close>

theorem endpoint_counters:
  "hit_count (botEndpointHits (fetch_hook (Str url) s)) k
     = hit_count (botEndpointHits s) k
       + (if startsWith url ''/bot/'' \<and> \<not> str_includes url ''behaviorMetrics''
             \<and> k = before_query url
          then 1 else 0)
   \<and> botEndpointHits (fetch_hook NotString s) = botEndpointHits s
   \<and> hit_count (botEndpointHits s) k \<le> hit_count (botEndpointHits (run ops s)) k
   \<and> botEndpointHits (stop s) = botEndpointHits s"
  by (simp add: hit_count_fetch_hook run_hits_mono stop_fields, simp add: fetch_hook_def)

theorem endpoint_counters_witness:
  "hit_count (botEndpointHits (fetch_hook (Str ''/bot/search?from=NYC'') tier_example))
     ''/bot/search'' = 3
   \<and> hit_count (botEndpointHits (fetch_hook (Str ''/bot/search?from=NYC'') tier_example))
     ''/bot/book'' = 3
   \<and> hit_count (botEndpointHits (fetch_hook (Str ''/graphql'') tier_example))
     ''/graphql'' = 0
   \<and> botEndpointHits (stop tier_example) = botEndpointHits tier_example"
proof -
  have h: "hit_count (botEndpointHits tier_example) ''/bot/search'' = 2"
    "hit_count (botEndpointHits tier_example) ''/bot/book'' = 3"
    "hit_count (botEndpointHits tier_example) ''/graphql'' = 0"
    by (simp_all add: tier_example_def hit_count_def)
  have a: "hit_count (botEndpointHits (fetch_hook (Str ''/bot/search?from=NYC'') tier_example))
     ''/bot/search'' = 3"
    using endpoint_counters [of "''/bot/search?from=NYC''" tier_example "''/bot/search''" "[]"]
    by (simp add: h before_query_def)
  have b: "hit_count (botEndpointHits (fetch_hook (Str ''/bot/search?from=NYC'') tier_example))
     ''/bot/book'' = 3"
    using endpoint_counters [of "''/bot/search?from=NYC''" tier_example "''/bot/book''" "[]"]
    by (simp add: h before_query_def)
  have c: "hit_count (botEndpointHits (fetch_hook (Str ''/graphql'') tier_example))
     ''/graphql'' = 0"
    using endpoint_counters [of "''/graphql''" tier_example "''/graphql''" "[]"]
    by (simp add: h)
  have d: "botEndpointHits (stop tier_example) = botEndpointHits tier_example"
    using endpoint_counters [of "[]" tier_example "[]" "[]"] by simp
  from a b c d show ?thesis by blast
qed

text \<open>
  Two calls to privileged paths other than the reporting endpoint that are not counted,
  because the text \<open>behaviorMetrics\<close> occurs in the URL.
\<close>

theorem metrics_substring_not_counted:
  "startsWith ''/bot/behaviorMetrics/export'' ''/bot/''
   \<and> before_query ''/bot/behaviorMetrics/export'' \<noteq> reportEndpoint
   \<and> hit_count (botEndpointHits (fetch_hook (Str ''/bot/behaviorMetrics/export'') new_detector))
         (before_query ''/bot/behaviorMetrics/export'') = 0
   \<and> startsWith ''/bot/orders?tag=behaviorMetrics'' ''/bot/''
   \<and> before_query ''/bot/orders?tag=behaviorMetrics'' = ''/bot/orders''
   \<and> hit_count (botEndpointHits (fetch_hook (Str ''/bot/orders?tag=behaviorMetrics'') new_detector))
         ''/bot/orders'' = 0"
  by (simp add: fetch_hook_def before_query_def reportEndpoint_def new_detector_def
      hit_count_def)


section \<open>Environment probes\<close>

text \<open>
  C6, as the code has it.  Each strong match assigns 0.95 to the confidence whatever it
  was: the automation flag when \<open>start\<close> runs, an automation global in the delayed check
  (stated here for a window whose outer and inner dimensions differ), and an identity
  substring when the header probe is answered.  Only the identity match calls the
  reporter: when the report's snapshot is built without an exception one report is sent,
  and it carries the 0.95; when an element lookup throws there, the exception is
  swallowed, the confidence stays 0.95 and nothing is sent.  The flag and the globals send
  no report.
\<close>

theorem strong_match_probe:
  "(webdriver b \<longrightarrow>
      confidenceScore (start b h s) = Fin 0.95 \<and> reports (start b h s) = reports s)
   \<and> ((win_cdp b \<or> win_pwMeta b)
        \<and> (outerHeight b \<noteq> innerHeight b \<or> outerWidth b \<noteq> innerWidth b) \<longrightarrow>
      confidenceScore (checkForAutomation b s) = Fin 0.95
      \<and> reports (checkForAutomation b s) = reports s)
   \<and> (identity_match (userAgent b) \<longrightarrow>
      confidenceScore (checkBotHeaders_then b s) = Fin 0.95
      \<and> (calculateNavigationPatterns b s = Inr nav \<longrightarrow>
           (\<exists>r. checkBotHeaders_then b s
                   = s\<lparr>confidenceScore := Fin 0.95, reports := reports s @ [r]\<rparr>
                 \<and> rp_confidenceScore r = Fin 0.95))
      \<and> (calculateNavigationPatterns b s = Inl e \<longrightarrow>
           checkBotHeaders_then b s = s\<lparr>confidenceScore := Fin 0.95\<rparr>))"
proof (intro conjI impI)
  assume "webdriver b"
  then show "confidenceScore (start b h s) = Fin 0.95"
    by (simp add: start_def detectAutomationLibraries_def)
next
  show "reports (start b h s) = reports s"
    by (simp add: start_def detectAutomationLibraries_def scheduleAnalysis_def)
next
  assume "(win_cdp b \<or> win_pwMeta b)
          \<and> (outerHeight b \<noteq> innerHeight b \<or> outerWidth b \<noteq> innerWidth b)"
  then show "confidenceScore (checkForAutomation b s) = Fin 0.95"
    by (auto simp: checkForAutomation_def Let_def)
next
  show "reports (checkForAutomation b s) = reports s"
    by (simp add: checkForAutomation_def Let_def)
next
  let ?s1 = "s\<lparr>confidenceScore := Fin 0.95\<rparr>"
  assume m: "identity_match (userAgent b)"
  have cong: "calculateNavigationPatterns b ?s1 = calculateNavigationPatterns b s"
    by (rule nav_cong) simp_all
  note hdr = checkBotHeaders_then_match [OF m, of s]
  from reportToServer_cases [of b ?s1] hdr
  show "confidenceScore (checkBotHeaders_then b s) = Fin 0.95"
    by auto
  {
    assume "calculateNavigationPatterns b s = Inr nav"
    with cong have "calculateNavigationPatterns b ?s1 = Inr nav" by simp
    from reportToServer_sends [OF this] hdr
    show "\<exists>r. checkBotHeaders_then b s
                = s\<lparr>confidenceScore := Fin 0.95, reports := reports s @ [r]\<rparr>
              \<and> rp_confidenceScore r = Fin 0.95"
      by auto
  }
  {
    assume "calculateNavigationPatterns b s = Inl e"
    with cong have "calculateNavigationPatterns b ?s1 = Inl e" by simp
    from reportToServer_caught [OF this] hdr
    show "checkBotHeaders_then b s = s\<lparr>confidenceScore := Fin 0.95\<rparr>"
      by simp
  }
qed

lemma raise_example_throws_any:
  "calculateNavigationPatterns (b\<lparr>elementFromPoint := (\<lambda>x y. Inl TypeError)\<rparr>) raise_example
     = Inl TypeError"
  by (simp add: calculateNavigationPatterns_def raise_example_def nav_example_def
      two_moves_def new_detector_def Let_def)

theorem strong_match_probe_witness:
  "confidenceScore (start flagged_browser 1 three_moves) = Fin 0.95
   \<and> reports (start flagged_browser 1 three_moves) = []
   \<and> confidenceScore (checkForAutomation (plain_browser\<lparr>win_cdp := True\<rparr>) three_moves)
       = Fin 0.95
   \<and> confidenceScore (checkBotHeaders_then declared_browser three_moves) = Fin 0.95
   \<and> length (reports (checkBotHeaders_then declared_browser three_moves)) = 1
   \<and> confidenceScore (checkBotHeaders_then declared_throwing_browser raise_example) = Fin 0.95
   \<and> reports (checkBotHeaders_then declared_throwing_browser raise_example) = []"
proof -
  have r0: "reports three_moves = []"
    by (simp add: three_moves_def new_detector_def)
  have r1: "reports raise_example = []"
    by (simp add: raise_example_def nav_example_def new_detector_def)
  have a: "confidenceScore (start flagged_browser 1 three_moves) = Fin 0.95
           \<and> reports (start flagged_browser 1 three_moves) = []"
    using strong_match_probe [of flagged_browser 1 three_moves]
    by (simp add: flagged_browser_def r0)
  have b: "confidenceScore (checkForAutomation (plain_browser\<lparr>win_cdp := True\<rparr>) three_moves)
             = Fin 0.95"
    using strong_match_probe [of "plain_browser\<lparr>win_cdp := True\<rparr>" 1 three_moves]
    by (simp add: plain_browser_def)
  have nav: "calculateNavigationPatterns declared_browser three_moves = Inr (Fin 0.5)"
    by (simp add: calculateNavigationPatterns_def three_moves_def new_detector_def)
  have c: "confidenceScore (checkBotHeaders_then declared_browser three_moves) = Fin 0.95
           \<and> length (reports (checkBotHeaders_then declared_browser three_moves)) = 1"
    using strong_match_probe [of declared_browser 1 three_moves "Fin 0.5"]
      declared_browser_match nav
    by (auto simp: r0)
  have m: "identity_match (userAgent declared_throwing_browser)"
    using declared_browser_match by (simp add: declared_throwing_browser_def)
  have thr: "calculateNavigationPatterns declared_throwing_browser raise_example = Inl TypeError"
    unfolding declared_throwing_browser_def by (rule raise_example_throws_any)
  have d: "confidenceScore (checkBotHeaders_then declared_throwing_browser raise_example)
             = Fin 0.95
           \<and> reports (checkBotHeaders_then declared_throwing_browser raise_example) = []"
    using strong_match_probe [of declared_throwing_browser 1 raise_example _ TypeError] m thr
    by (simp add: r1)
  from a b c d show ?thesis by blast
qed

text \<open>
  With the automation flag set, \<open>start\<close> and the delayed check raise the confidence to
  0.95 and send no report.
\<close>

theorem automation_flag_sends_no_report:
  "webdriver flagged_browser
   \<and> confidenceScore (run [Call_start flagged_browser 1, Automation_timeout flagged_browser]
        new_detector) = Fin 0.95
   \<and> reports (run [Call_start flagged_browser 1, Automation_timeout flagged_browser]
        new_detector) = []"
  by (simp add: run_def start_def detectAutomationLibraries_def scheduleAnalysis_def
      checkForAutomation_def flagged_browser_def plain_browser_def new_detector_def Let_def)

section \<open>Where the extractors stay in the unit interval\<close>

lemma in_unit_Fin [simp]: "in_unit (Fin v) = (0 \<le> v \<and> v \<le> 1)"
  by (simp add: in_unit_def)

lemma in_unit_cases: "in_unit x = (\<exists>v. x = Fin v \<and> 0 \<le> v \<and> v \<le> 1)"
  by (cases x) (simp_all add: in_unit_def)

lemma sum_sq_shift:
  "(\<Sum>x\<leftarrow>xs. (x - m)\<^sup>2)
     = (\<Sum>x\<leftarrow>xs. x * x) - 2 * m * sum_list xs + real (length xs) * (m * m)"
  by (induction xs) (simp_all add: power2_eq_square algebra_simps)

lemma mean_square_le:
  assumes "xs \<noteq> []"
  shows "(sum_list xs / real (length xs)) * (sum_list xs / real (length xs))
           \<le> (\<Sum>x\<leftarrow>xs. x * x) / real (length xs)"
proof -
  let ?n = "real (length xs)" and ?m = "sum_list xs / real (length xs)"
  have n: "0 < ?n" using assms by simp
  then have s: "sum_list xs = ?n * ?m" by simp
  have "0 \<le> (\<Sum>x\<leftarrow>xs. (x - ?m)\<^sup>2)"
    by (rule sum_list_nonneg) auto
  also have "\<dots> = (\<Sum>x\<leftarrow>xs. x * x) - 2 * ?m * (?n * ?m) + ?n * (?m * ?m)"
    using sum_sq_shift [of ?m xs] s by simp
  also have "\<dots> = (\<Sum>x\<leftarrow>xs. x * x) - ?n * (?m * ?m)"
    by (simp add: algebra_simps)
  finally have "?n * (?m * ?m) \<le> (\<Sum>x\<leftarrow>xs. x * x)" by simp
  with n show ?thesis by (simp add: pos_le_divide_eq mult.commute)
qed

lemma calculateTypingPatterns_range:
  assumes "2 \<le> length (keyPressTimings s)"
  shows "in_unit (calculateTypingPatterns s)"
proof -
  let ?ds = "diffs (map k_time (keyPressTimings s))"
  let ?n = "real (length ?ds)"
  let ?v = "(\<Sum>x\<leftarrow>?ds. x * x) / ?n - (sum_list ?ds / ?n) * (sum_list ?ds / ?n)"
  have len: "length ?ds \<noteq> 0" using assms by (simp add: length_diffs)
  then have n: "?n \<noteq> 0" and ne: "?ds \<noteq> []" by auto
  have v: "0 \<le> ?v" using mean_square_le [OF ne] by simp
  have "calculateTypingPatterns s = Fin (1 - min 1 (?v / 10000))"
    using assms n
    by (auto simp: calculateTypingPatterns_def MIN_KEYPRESS_SAMPLES_def intervals_diffs
        foldl_plus_Fin foldl_sqsum_Fin Let_def)
  moreover have "0 \<le> min 1 (?v / 10000)" "min 1 (?v / 10000) \<le> 1"
    using v by simp_all
  ultimately show ?thesis by simp
qed

lemma calculateTypingPatterns_unit_or_NaN: "unit_or_NaN (calculateTypingPatterns s)"
proof -
  consider "length (keyPressTimings s) = 0" | "length (keyPressTimings s) = 1"
    | "2 \<le> length (keyPressTimings s)" by linarith
  then show ?thesis
  proof cases
    case 1
    then show ?thesis
      by (simp add: unit_or_NaN_def calculateTypingPatterns_def MIN_KEYPRESS_SAMPLES_def)
  next
    case 2
    then have "diffs (map k_time (keyPressTimings s)) = []"
      using length_diffs [of "map k_time (keyPressTimings s)"] by simp
    with 2 have "calculateTypingPatterns s = NaN"
      by (simp add: calculateTypingPatterns_def MIN_KEYPRESS_SAMPLES_def intervals_diffs Let_def
          times_jsnum_def minus_jsnum_def plus_jsnum_def divide_jsnum_def)
    then show ?thesis by (simp add: unit_or_NaN_def)
  next
    case 3
    then show ?thesis by (simp add: unit_or_NaN_def calculateTypingPatterns_range)
  qed
qed

lemma mouse_loop_bounds:
  assumes "l0 = None \<or> (\<exists>l. l0 = Some (Fin l))" and "0 \<le> v0"
  shows "\<exists>k l v. mouse_loop ps (k0, l0, Fin v0) = (k, l, Fin v)
                 \<and> k \<le> k0 + (length ps - 2) \<and> 0 \<le> v"
  using assms
proof (induction ps arbitrary: k0 l0 v0)
  case Nil
  then show ?case by simp
next
  case (Cons p1 rest)
  show ?case
  proof (cases rest)
    case Nil
    with Cons.prems show ?thesis by simp
  next
    case r: (Cons p2 rest2)
    show ?thesis
    proof (cases rest2)
      case Nil
      with r Cons.prems show ?thesis by simp
    next
      case r2: (Cons p3 ps')
      let ?k = "if \<bar>(m_x p2 - m_x p1) * (m_y p3 - m_y p2)
                     - (m_y p2 - m_y p1) * (m_x p3 - m_x p2)\<bar> < 10
                then Suc k0 else k0"
      obtain v1 where v1: "(case l0 of None \<Rightarrow> Fin v0
          | Some l \<Rightarrow> Fin v0 + Math_abs (Fin (segment_speed p2 p3) - l)) = Fin v1"
        and v1n: "0 \<le> v1"
        using Cons.prems by auto
      have "\<exists>k l v. mouse_loop rest (?k, Some (Fin (segment_speed p2 p3)), Fin v1) = (k, l, Fin v)
                \<and> k \<le> ?k + (length rest - 2) \<and> 0 \<le> v"
        by (rule Cons.IH) (simp_all add: v1n)
      then obtain k l v
        where e: "mouse_loop rest (?k, Some (Fin (segment_speed p2 p3)), Fin v1) = (k, l, Fin v)"
          and kb: "k \<le> ?k + (length rest - 2)" and vn: "0 \<le> v"
        by blast
      have "mouse_loop (p1 # rest) (k0, l0, Fin v0) = (k, l, Fin v)"
        using e unfolding r r2 mouse_loop_step v1 by simp
      moreover have "k \<le> k0 + (length (p1 # rest) - 2)"
        using kb by (simp add: r r2 split: if_splits)
      ultimately show ?thesis using vn by blast
    qed
  qed
qed

lemma calculateMouseEntropy_range:
  assumes "3 \<le> length (mouseMovements s)"
  shows "in_unit (calculateMouseEntropy s)"
proof -
  let ?n = "length (mouseMovements s)"
  obtain k l v where loop: "mouse_loop (mouseMovements s) (0, None, Fin 0) = (k, l, Fin v)"
    and kb: "k \<le> ?n - 2" and vn: "0 \<le> v"
    using mouse_loop_bounds [of None 0 "mouseMovements s" 0] by auto
  let ?d = "real ?n - 2"
  have d: "0 < ?d" using assms by simp
  let ?ratio = "if 3 < ?n then real k / ?d else 0"
  let ?var = "min 1 (v / ?d * 10)"
  have "real k \<le> ?d" using kb assms by linarith
  with d have ratio: "0 \<le> ?ratio" "?ratio \<le> 1" by simp_all
  have var: "0 \<le> ?var" "?var \<le> 1" using vn d by simp_all
  have "calculateMouseEntropy s = Fin (?ratio * 0.6 + (1 - ?var) * 0.4)"
    using assms d loop
    by (simp add: calculateMouseEntropy_def MIN_MOUSE_MOVEMENTS_def Let_def)
  moreover have "0 \<le> ?ratio * 0.6 + (1 - ?var) * 0.4"
    using ratio(1) var(2) by (intro add_nonneg_nonneg mult_nonneg_nonneg) simp_all
  moreover have "?ratio * 0.6 + (1 - ?var) * 0.4 \<le> 1"
  proof -
    have "?ratio * 0.6 \<le> 0.6" using ratio by simp
    moreover have "(1 - ?var) * 0.4 \<le> 0.4" using var by simp
    ultimately show ?thesis by linarith
  qed
  ultimately show ?thesis by simp
qed

lemma calculateMouseEntropy_unit_or_NaN: "unit_or_NaN (calculateMouseEntropy s)"
proof -
  consider "length (mouseMovements s) < 2" | "length (mouseMovements s) = 2"
    | "3 \<le> length (mouseMovements s)" by linarith
  then show ?thesis
  proof cases
    case 1
    then show ?thesis
      by (simp add: unit_or_NaN_def calculateMouseEntropy_def MIN_MOUSE_MOVEMENTS_def)
  next
    case 2
    then have "calculateMouseEntropy s = NaN"
      by (simp add: calculateMouseEntropy_def MIN_MOUSE_MOVEMENTS_def mouse_loop_short Let_def
          times_jsnum_def minus_jsnum_def plus_jsnum_def)
    then show ?thesis by (simp add: unit_or_NaN_def)
  next
    case 3
    then show ?thesis by (simp add: unit_or_NaN_def calculateMouseEntropy_range)
  qed
qed

lemma scroll_regularity_range: "0 \<le> scroll_regularity ts \<and> scroll_regularity ts \<le> 1"
  by (simp add: scroll_regularity_def)

lemma center_click_ratio_range:
  "0 \<le> center_click_ratio b clicks \<and> center_click_ratio b clicks \<le> 1"
proof (cases "clicks = []")
  case True
  then show ?thesis by (simp add: center_click_ratio_def)
next
  case False
  then have "0 < real (length clicks)" by simp
  moreover have "real (length (filter (near_center b) clicks)) \<le> real (length clicks)"
    by simp
  ultimately show ?thesis by (simp add: center_click_ratio_def)
qed

lemma blend2_bounds:
  fixes x y :: real
  assumes "0 \<le> x" "x \<le> 1" "0 \<le> y" "y \<le> 1"
  shows "0 \<le> ((1 / 2 + x) / 2 + y) / 2" "((1 / 2 + x) / 2 + y) / 2 \<le> 1"
  using assms by (simp_all add: field_simps)

lemma blend1_bounds:
  fixes x :: real
  assumes "0 \<le> x" "x \<le> 1"
  shows "0 \<le> (1 / 2 + x) / 2" "(1 / 2 + x) / 2 \<le> 1"
  using assms by (simp_all add: field_simps)

lemma calculateNavigationPatterns_range:
  assumes "calculateNavigationPatterns b s = Inr nav"
  shows "in_unit nav"
proof -
  have ok: "2 \<le> length (clickEvents s) \<Longrightarrow> list_all (dom_ok b) (clickEvents s)"
    using assms count_centerClicks_Inr_iff [of b "clickEvents s" 0]
    by (auto simp: calculateNavigationPatterns_def Let_def split: if_splits sum.splits)
  note sr = scroll_regularity_range [of "map s_time (scrollEvents s)"]
  note cr = center_click_ratio_range [of b "clickEvents s"]
  note both = blend2_bounds [OF conjunct1 [OF sr] conjunct2 [OF sr] conjunct1 [OF cr]
      conjunct2 [OF cr]]
  note scroll_only = blend1_bounds [OF conjunct1 [OF sr] conjunct2 [OF sr]]
  note click_only = blend1_bounds [OF conjunct1 [OF cr] conjunct2 [OF cr]]
  consider "3 \<le> length (scrollEvents s)" "2 \<le> length (clickEvents s)"
    | "3 \<le> length (scrollEvents s)" "length (clickEvents s) < 2"
    | "length (scrollEvents s) < 3" "2 \<le> length (clickEvents s)"
    | "length (scrollEvents s) < 3" "length (clickEvents s) < 2"
    by linarith
  then show ?thesis
  proof cases
    case 1
    with nav_both [of s b] ok assms
    have "nav = Fin (((0.5 + scroll_regularity (map s_time (scrollEvents s))) / 2
                      + center_click_ratio b (clickEvents s)) / 2)" by simp
    moreover have "0 \<le> ((1 / 2 + scroll_regularity (map s_time (scrollEvents s))) / 2
                      + center_click_ratio b (clickEvents s)) / 2"
      "((1 / 2 + scroll_regularity (map s_time (scrollEvents s))) / 2
                      + center_click_ratio b (clickEvents s)) / 2 \<le> 1"
      by (rule both)+
    ultimately show ?thesis by simp
  next
    case 2
    with nav_scroll_only [of s b] assms
    have "nav = Fin ((0.5 + scroll_regularity (map s_time (scrollEvents s))) / 2)" by simp
    moreover have "0 \<le> (1 / 2 + scroll_regularity (map s_time (scrollEvents s))) / 2"
      "(1 / 2 + scroll_regularity (map s_time (scrollEvents s))) / 2 \<le> 1"
      by (rule scroll_only)+
    ultimately show ?thesis by simp
  next
    case 3
    with nav_click_only [of s b] ok assms
    have "nav = Fin ((0.5 + center_click_ratio b (clickEvents s)) / 2)" by simp
    moreover have "0 \<le> (1 / 2 + center_click_ratio b (clickEvents s)) / 2"
      "(1 / 2 + center_click_ratio b (clickEvents s)) / 2 \<le> 1"
      by (rule click_only)+
    ultimately show ?thesis by simp
  next
    case 4
    with nav_neither [of s b] assms show ?thesis by auto
  qed
qed

lemma calculateFormFillingPatterns_range: "in_unit (calculateFormFillingPatterns s)"
  by (simp add: calculateFormFillingPatterns_def Let_def)

lemma fused_valid_range:
  assumes "unit_or_NaN m" and "unit_or_NaN t" and "in_unit n" and "in_unit f"
  shows "in_unit (if isNaN (m * Fin 0.45 + t * Fin 0.15 + n * Fin 0.25 + f * Fin 0.15)
                  then Fin 0.5
                  else m * Fin 0.45 + t * Fin 0.15 + n * Fin 0.25 + f * Fin 0.15)"
proof -
  obtain nv fv where n: "n = Fin nv" "0 \<le> nv" "nv \<le> 1" and f: "f = Fin fv" "0 \<le> fv" "fv \<le> 1"
    using assms(3,4) by (auto simp: in_unit_cases)
  show ?thesis
  proof (cases "m = NaN \<or> t = NaN")
    case True
    then have "m * Fin 0.45 + t * Fin 0.15 + n * Fin 0.25 + f * Fin 0.15 = NaN"
      by (cases m; cases t) (auto simp: n f times_jsnum_def plus_jsnum_def)
    then show ?thesis by simp
  next
    case False
    with assms(1,2) obtain mv tv where m: "m = Fin mv" "0 \<le> mv" "mv \<le> 1"
      and t: "t = Fin tv" "0 \<le> tv" "tv \<le> 1"
      by (auto simp: unit_or_NaN_def in_unit_cases)
    have "0 \<le> mv * 0.45 + tv * 0.15 + nv * 0.25 + fv * 0.15"
      using m t n f by (intro add_nonneg_nonneg mult_nonneg_nonneg) simp_all
    moreover have "mv * 0.45 + tv * 0.15 + nv * 0.25 + fv * 0.15 \<le> 1"
    proof -
      have "mv * (9 / 20) + tv * (3 / 20) + nv * (1 / 4) + fv * (3 / 20) \<le> 1"
        using m(3) t(3) n(3) f(3) by linarith
      then show ?thesis by simp
    qed
    ultimately show ?thesis by (simp add: m t n f)
  qed
qed

section \<open>Where the confidence score stays in the unit interval\<close>

lemma bump_in_unit:
  assumes "in_unit c" and "0 \<le> d"
  shows "in_unit (Math_min (Fin (19 / 20)) (c + Fin d))"
proof -
  obtain v where v: "c = Fin v" "0 \<le> v" using assms(1) by (auto simp: in_unit_cases)
  have "0 \<le> min (19 / 20) (v + d)" "min (19 / 20) (v + d) \<le> 1"
    using v(2) assms(2) by simp_all
  then show ?thesis by (simp add: v)
qed

lemma runAnalysis_in_unit:
  assumes "in_unit (confidenceScore s)"
  shows "in_unit (confidenceScore (runAnalysis b s))"
proof -
  obtain c where c: "confidenceScore s = Fin c" "0 \<le> c" "c \<le> 1"
    using assms by (auto simp: in_unit_cases)
  consider (busy) "isAnalyzing s"
    | (few) "\<not> isAnalyzing s" "length (mouseMovements s) < 2"
    | (thrown) e where "\<not> isAnalyzing s" "2 \<le> length (mouseMovements s)"
        "calculateNavigationPatterns b s = Inl e"
    | (fused) nav where "\<not> isAnalyzing s" "2 \<le> length (mouseMovements s)"
        "calculateNavigationPatterns b s = Inr nav"
    by (cases "calculateNavigationPatterns b s") force+
  then show ?thesis
  proof cases
    case busy
    then show ?thesis using assms by (simp add: runAnalysis_def)
  next
    case few
    then show ?thesis using assms by (simp add: runAnalysis_skip)
  next
    case thrown
    have "calculateNavigationPatterns b (s\<lparr>isAnalyzing := True\<rparr>)
            = calculateNavigationPatterns b s"
      by (rule nav_cong) simp_all
    with thrown have "runAnalysis_try b (s\<lparr>isAnalyzing := True\<rparr>) = Inl e"
      by (simp add: runAnalysis_try_raises_iff)
    with thrown(1) show ?thesis by (simp add: runAnalysis_def)
  next
    case fused
    let ?fused = "calculateMouseEntropy s * Fin 0.45 + calculateTypingPatterns s * Fin 0.15
                    + nav * Fin 0.25 + calculateFormFillingPatterns s * Fin 0.15"
    have "in_unit (if isNaN ?fused then Fin 0.5 else ?fused)"
      by (intro fused_valid_range calculateMouseEntropy_unit_or_NaN
          calculateTypingPatterns_unit_or_NaN calculateNavigationPatterns_range [OF fused(3)]
          calculateFormFillingPatterns_range)
    then obtain f where f: "(if isNaN ?fused then Fin 0.5 else ?fused) = Fin f"
      and fr: "0 \<le> f" "f \<le> 1"
      by (auto simp only: in_unit_cases)
    from f have "(if isNaN
                    (calculateMouseEntropy s * Fin W_MOUSE_ENTROPY
                     + calculateTypingPatterns s * Fin W_TYPING_PATTERN
                     + nav * Fin W_NAVIGATION_PATTERN
                     + calculateFormFillingPatterns s * Fin W_FORM_FILLING)
                 then Fin 0.5
                 else calculateMouseEntropy s * Fin W_MOUSE_ENTROPY
                     + calculateTypingPatterns s * Fin W_TYPING_PATTERN
                     + nav * Fin W_NAVIGATION_PATTERN
                     + calculateFormFillingPatterns s * Fin W_FORM_FILLING) = Fin f"
      by (simp only: W_MOUSE_ENTROPY_def W_TYPING_PATTERN_def W_NAVIGATION_PATTERN_def
          W_FORM_FILLING_def)
    from runAnalysis_update [OF fused(1) c(1) fused(2) fused(3) this]
    have "confidenceScore (runAnalysis b s) = Fin (0.7 * c + 0.3 * f)" by auto
    moreover have "0 \<le> 0.7 * c + 0.3 * f"
      using c(2) fr(1) by (intro add_nonneg_nonneg mult_nonneg_nonneg) simp_all
    moreover have "0.7 * c + 0.3 * f \<le> 1"
    proof -
      have "7 / 10 * c + 3 / 10 * f \<le> 1" using c(3) fr(2) by linarith
      then show ?thesis by simp
    qed
    ultimately show ?thesis by simp
  qed
qed

lemma handleMouseMove_confidence:
  "confidenceScore (handleMouseMove b x y s) = confidenceScore s
   \<or> confidenceScore (handleMouseMove b x y s)
       = Math_min (Fin 0.95) (confidenceScore s + Fin 0.1)"
  by (simp add: handleMouseMove_def Let_def)

lemma handleKeyDown_confidence:
  "confidenceScore (handleKeyDown b sh ct al me s) = confidenceScore s
   \<or> confidenceScore (handleKeyDown b sh ct al me s)
       = Math_min (Fin 0.95) (confidenceScore s + Fin 0.05)"
  by (simp add: handleKeyDown_def detectMechanicalTyping_def Let_def)

lemma handleClick_confidence:
  "confidenceScore (handleClick b x y tag r s) = confidenceScore s
   \<or> confidenceScore (handleClick b x y tag r s)
       = Math_min (Fin 0.95) (confidenceScore s + Fin 0.15)"
  by (simp add: handleClick_def Let_def reportToServer_frame split: option.splits)

lemma handleScroll_confidence:
  "confidenceScore (handleScroll b s) = confidenceScore s
   \<or> confidenceScore (handleScroll b s) = Math_min (Fin 0.95) (confidenceScore s + Fin 0.1)"
  by (simp add: handleScroll_def detectMechanicalScrolling_def Let_def)

lemma handleFormInteraction_confidence:
  "confidenceScore (handleFormInteraction b tag name ident s) = confidenceScore s
   \<or> confidenceScore (handleFormInteraction b tag name ident s)
       = Math_min (Fin 0.95) (confidenceScore s + Fin 0.2)"
  by (simp add: handleFormInteraction_def Let_def reportToServer_frame)

lemma handle_in_unit:
  assumes "in_unit (confidenceScore s)"
  shows "in_unit (confidenceScore (handle b ev s))"
proof (cases ev)
  case (MouseMove x y)
  with handleMouseMove_confidence [of b x y s] assms show ?thesis
    by (auto simp: bump_in_unit)
next
  case (KeyDown sh ct al me)
  with handleKeyDown_confidence [of b sh ct al me s] assms show ?thesis
    by (auto simp: bump_in_unit)
next
  case (Click x y tag r)
  with handleClick_confidence [of b x y tag r s] assms show ?thesis
    by (auto simp: bump_in_unit)
next
  case Scroll
  with handleScroll_confidence [of b s] assms show ?thesis
    by (auto simp: bump_in_unit)
next
  case (Input tag name ident)
  with handleFormInteraction_confidence [of b tag name ident s] assms show ?thesis
    by (auto simp: bump_in_unit)
qed

lemma step_in_unit:
  assumes "in_unit (confidenceScore s)" and "no_viewport_bump x"
  shows "in_unit (confidenceScore (step x s))"
proof (cases x)
  case (Call_start b h)
  with assms show ?thesis
    by (simp add: start_def detectAutomationLibraries_def scheduleAnalysis_def)
next
  case Call_stop
  with assms show ?thesis by (simp add: stop_fields)
next
  case (Raw_event b ev)
  with assms show ?thesis by (simp add: deliver_def handle_in_unit)
next
  case (Analysis_callback b h)
  with assms show ?thesis by (simp add: scheduleAnalysis_def runAnalysis_in_unit)
next
  case (Automation_timeout b)
  with assms show ?thesis by (auto simp: checkForAutomation_def Let_def)
next
  case (Header_response b)
  with assms checkBotHeaders_then_cases [of b s] show ?thesis
    by (auto simp: reportToServer_frame)
next
  case (Window_fetch arg)
  with assms show ?thesis by (simp add: fetch_hook_def split: fetch_arg.splits)
qed

text \<open>
  On every run in which no delayed automation check finds the outer and inner window
  dimensions equal, the confidence score is a number between 0 and 1, never NaN.
\<close>

lemma confidence_in_unit_without_viewport_bump:
  assumes "list_all no_viewport_bump ops" and "in_unit (confidenceScore s)"
  shows "in_unit (confidenceScore (run ops s))"
  using assms
proof (induction ops arbitrary: s)
  case Nil
  then show ?case by (simp add: run_Nil)
next
  case (Cons x ops)
  then show ?case by (simp add: run_Cons step_in_unit)
qed

lemma new_detector_in_unit: "in_unit (confidenceScore new_detector)"
  by (simp add: new_detector_def)

section \<open>Rounding to doubles\<close>



lemma round_half_even_of_int: "round_half_even (of_int m) = m"
  by (simp add: round_half_even_def)







section \<open>The combined score in doubles\<close>













section \<open>The tier classifier\<close>











section \<open>Where the ranges fail\<close>

text \<open>
  C1 fails on the code.  In a browser with the automation flag set and equal outer and
  inner window dimensions, \<open>start\<close> sets the confidence to 0.95 and the delayed check adds
  0.1 without the cap that every other increment applies: the confidence, and what
  \<open>getConfidenceScore\<close> returns, is 1.05.  Without that step the score stays in the unit
  interval (\<open>confidence_in_unit_without_viewport_bump\<close>).
\<close>

theorem confidence_exceeds_one:
  "confidenceScore (run [Call_start headless_browser 1, Automation_timeout headless_browser]
     new_detector) = Fin 1.05
   \<and> getConfidenceScore (run [Call_start headless_browser 1, Automation_timeout headless_browser]
     new_detector) = Fin 1.05
   \<and> \<not> getConfidenceScore (run [Call_start headless_browser 1, Automation_timeout headless_browser]
     new_detector) \<le> Fin 1"
  by (simp add: run_def start_def detectAutomationLibraries_def scheduleAnalysis_def
      checkForAutomation_def getConfidenceScore_def headless_browser_def plain_browser_def
      new_detector_def Let_def)

text \<open>
  C3 fails on the code.  At exactly the minimum sample counts the extractors divide zero
  by zero: the motion signal of two pointer samples and the typing signal of one key
  sample are NaN, not a value between 0 and 1.  Below the minimum they are 0.5 and above
  it they are in the unit interval (\<open>calculateMouseEntropy_range\<close>,
  \<open>calculateTypingPatterns_range\<close>).
\<close>

theorem extractors_NaN_at_minimum:
  "length (mouseMovements two_moves) = 2 \<and> calculateMouseEntropy two_moves = NaN
   \<and> length (keyPressTimings one_key) = 1 \<and> calculateTypingPatterns one_key = NaN"
  by (simp add: calculateMouseEntropy_def calculateTypingPatterns_def two_moves_def one_key_def
      new_detector_def MIN_MOUSE_MOVEMENTS_def MIN_KEYPRESS_SAMPLES_def Let_def
      plus_jsnum_def minus_jsnum_def times_jsnum_def divide_jsnum_def)


end
